theory Spec2Isabelle
  imports Main
begin

section \<open>JavaScript text primitives\<close>

text \<open>
  Strings are lists of \<^typ>\<open>char\<close>. The model reads the log text as ASCII: white space is
  the ASCII white space that \<^verbatim>\<open>String.prototype.trim\<close> removes, letters are
  \<^verbatim>\<open>A-Z\<close> and \<^verbatim>\<open>a-z\<close>, and characters outside ASCII are neither white space,
  letters nor word characters.
\<close>

definition is_ws :: "char \<Rightarrow> bool" where
  "is_ws c = (c = CHR '' '' \<or> c = CHR 0x09 \<or> c = CHR 0x0A \<or> c = CHR 0x0B
     \<or> c = CHR 0x0C \<or> c = CHR 0x0D)"

definition trimStart :: "string \<Rightarrow> string" where
  "trimStart s = dropWhile is_ws s"

definition trim :: "string \<Rightarrow> string" where
  "trim s = rev (dropWhile is_ws (rev (dropWhile is_ws s)))"

definition startsWith :: "string \<Rightarrow> string \<Rightarrow> bool" where
  "startsWith s p = (take (length p) s = p)"

definition endsWith :: "string \<Rightarrow> string \<Rightarrow> bool" where
  "endsWith s p = (length p \<le> length s \<and> drop (length s - length p) s = p)"

text \<open>\<^verbatim>\<open>s.split(c)\<close> for a one-character separator: never empty, \<^verbatim>\<open>''.split(';')\<close> is \<^verbatim>\<open>['']\<close>.\<close>

fun split_on :: "char \<Rightarrow> string \<Rightarrow> string list" where
  "split_on c [] = [[]]"
| "split_on c (x # xs) =
     (if x = c then [] # split_on c xs
      else (case split_on c xs of
              p # ps \<Rightarrow> (x # p) # ps
            | [] \<Rightarrow> [[x]]))"

text \<open>\<^verbatim>\<open>s.replace(/pat/g, rep)\<close> for a literal, non-empty pattern: leftmost matches, not overlapping.\<close>

function replaceAll :: "string \<Rightarrow> string \<Rightarrow> string \<Rightarrow> string" where
  "replaceAll pat rep [] = []"
| "replaceAll pat rep (c # cs) =
     (if pat \<noteq> [] \<and> startsWith (c # cs) pat
      then rep @ replaceAll pat rep (drop (length pat) (c # cs))
      else c # replaceAll pat rep cs)"
  by pat_completeness auto
termination
  by (relation "measure (\<lambda>(pat, rep, s). length s)") auto

definition upper_chars :: string where
  "upper_chars = ''ABCDEFGHIJKLMNOPQRSTUVWXYZ''"

definition lower_chars :: string where
  "lower_chars = ''abcdefghijklmnopqrstuvwxyz''"

definition digit_chars :: string where
  "digit_chars = ''0123456789''"

definition toLowerChar :: "char \<Rightarrow> char" where
  "toLowerChar c = (case map_of (zip upper_chars lower_chars) c of Some l \<Rightarrow> l | None \<Rightarrow> c)"

definition toUpperChar :: "char \<Rightarrow> char" where
  "toUpperChar c = (case map_of (zip lower_chars upper_chars) c of Some u \<Rightarrow> u | None \<Rightarrow> c)"

definition toLowerCase :: "string \<Rightarrow> string" where
  "toLowerCase s = map toLowerChar s"

definition is_digit :: "char \<Rightarrow> bool" where
  "is_digit c = (c \<in> set digit_chars)"

definition digit_val :: "char \<Rightarrow> int" where
  "digit_val c = (case map_of (zip digit_chars [0, 1, 2, 3, 4, 5, 6, 7, 8, 9]) c of
                    Some d \<Rightarrow> d | None \<Rightarrow> 0)"

text \<open>The number a run of decimal digits denotes.\<close>

definition dec_value :: "string \<Rightarrow> int" where
  "dec_value ds = foldl (\<lambda>a c. 10 * a + digit_val c) 0 ds"

text \<open>
  \<^verbatim>\<open>parseInt(s, 10)\<close>: leading white space is skipped, one sign is read, then the longest
  run of decimal digits; whatever follows is ignored. No digit gives \<^verbatim>\<open>NaN\<close>, here
  \<^const>\<open>None\<close>. The result is the mathematical integer; JavaScript holds it as a double,
  which is the same number up to \<open>2^53\<close>.
\<close>

definition parseInt :: "string \<Rightarrow> int option" where
  "parseInt s =
     (let t = trimStart s;
          neg = startsWith t ''-'';
          u = (if startsWith t ''-'' \<or> startsWith t ''+'' then drop 1 t else t);
          ds = takeWhile is_digit u
      in if ds = [] then None
         else Some (if neg then - dec_value ds else dec_value ds))"

text \<open>
  \<^verbatim>\<open>parseFloat(s)\<close> reads the longest prefix that is a decimal literal (sign, digits,
  fraction, exponent, or \<^verbatim>\<open>Infinity\<close>). The model keeps that prefix as the value: the
  double is the one nearest to the number the literal denotes. \<^const>\<open>None\<close> is
  \<^verbatim>\<open>NaN\<close>.
\<close>

definition exponentPart :: "string \<Rightarrow> string" where
  "exponentPart r =
     (if startsWith r ''e'' \<or> startsWith r ''E'' then
        (let r1 = drop 1 r;
             sg = (if startsWith r1 ''-'' \<or> startsWith r1 ''+'' then take 1 r1 else []);
             ds = takeWhile is_digit (drop (length sg) r1)
         in if ds = [] then [] else take 1 r @ sg @ ds)
      else [])"

definition parseFloat :: "string \<Rightarrow> string option" where
  "parseFloat s =
     (let t = trimStart s;
          sg = (if startsWith t ''-'' \<or> startsWith t ''+'' then take 1 t else []);
          u = drop (length sg) t
      in if startsWith u ''Infinity'' then Some (sg @ ''Infinity'')
         else
          (let ip = takeWhile is_digit u;
               r1 = dropWhile is_digit u;
               fd = (if startsWith r1 ''.'' then takeWhile is_digit (drop 1 r1) else []);
               fp = (if startsWith r1 ''.'' \<and> (ip \<noteq> [] \<or> fd \<noteq> []) then CHR ''.'' # fd else []);
               r2 = drop (length fp) r1
           in if ip = [] \<and> fd = [] then None
              else Some (sg @ ip @ fp @ exponentPart r2)))"

section \<open>Helpers of the utilities module\<close>

text \<open>\<^verbatim>\<open>UUID_PATTERN\<close>: five groups of lower-case hexadecimal digits, of 8, 4, 4, 4 and 12.\<close>

definition is_lower_hex :: "char \<Rightarrow> bool" where
  "is_lower_hex c = (c \<in> set ''0123456789abcdef'')"

definition isUuid :: "string \<Rightarrow> bool" where
  "isUuid text =
     (let groups = split_on (CHR ''-'') text
      in map length groups = [8, 4, 4, 4, 12] \<and> list_all (list_all is_lower_hex) groups)"

text \<open>
  \<^verbatim>\<open>COLOR_CODE_PATTERN\<close> at the start of a string: the text after a match of
  \<^verbatim>\<open>\{#color\([^)]*\)\}\<close>, or of \<^verbatim>\<open>\{#reset\(\)\}\<close>.
\<close>

definition match_color :: "string \<Rightarrow> string option" where
  "match_color s =
     (if startsWith s ''{#color('' then
        (case dropWhile (\<lambda>c. c \<noteq> CHR '')'') (drop 8 s) of
           c1 # c2 # rest \<Rightarrow> if c2 = CHR ''}'' then Some rest else None
         | _ \<Rightarrow> None)
      else None)"

definition match_reset :: "string \<Rightarrow> string option" where
  "match_reset s = (if startsWith s ''{#reset()}'' then Some (drop 10 s) else None)"

definition match_code :: "string \<Rightarrow> string option" where
  "match_code s = (case match_color s of Some rest \<Rightarrow> Some rest | None \<Rightarrow> match_reset s)"

lemma match_code_shorter: "match_code s = Some rest \<Longrightarrow> length rest < length s"
proof -
  have dw: "length (dropWhile P xs) \<le> length xs" for P and xs :: string
    by (simp add: length_dropWhile_le)
  assume a: "match_code s = Some rest"
  show ?thesis
  proof (cases "match_color s")
    case (Some r)
    with a have r: "r = rest" by (simp add: match_code_def)
    from Some obtain c1 c2 where d: "dropWhile (\<lambda>c. c \<noteq> CHR '')'') (drop 8 s) = c1 # c2 # rest"
      unfolding match_color_def r
      by (auto split: if_splits list.splits)
    have "length (dropWhile (\<lambda>c. c \<noteq> CHR '')'') (drop 8 s)) \<le> length (drop 8 s)"
      by (rule dw)
    with d show ?thesis by simp
  next
    case None
    with a have "match_reset s = Some rest" by (simp add: match_code_def)
    then have s: "startsWith s ''{#reset()}''" and r: "rest = drop 10 s"
      by (auto simp: match_reset_def split: if_splits)
    from s have "length s \<ge> 10"
      by (cases "length s \<ge> 10") (auto simp: startsWith_def dest: arg_cong [where f = length])
    with r show ?thesis by simp
  qed
qed

function removeColorCodes :: "string \<Rightarrow> string" where
  "removeColorCodes [] = []"
| "removeColorCodes (c # cs) =
     (case match_code (c # cs) of
        Some rest \<Rightarrow> removeColorCodes rest
      | None \<Rightarrow> c # removeColorCodes cs)"
  by pat_completeness auto
termination
  by (relation "measure length") (auto dest: match_code_shorter)

definition stripColorCodes :: "string \<Rightarrow> string" where
  "stripColorCodes text = trim (removeColorCodes text)"

definition stripUnderscores :: "string \<Rightarrow> string" where
  "stripUnderscores s =
     rev (dropWhile (\<lambda>c. c = CHR ''_'') (rev (dropWhile (\<lambda>c. c = CHR ''_'') s)))"

definition generateBotIdentifier :: "string \<Rightarrow> string" where
  "generateBotIdentifier rawBotName =
     (let stripped = stripColorCodes rawBotName;
          sanitized = stripUnderscores
            (map (\<lambda>c. if c = CHR '' '' then CHR ''_'' else c)
              (replaceAll ''[bot]'' [] (toLowerCase stripped)))
      in ''bot_'' @ sanitized)"

text \<open>\<^verbatim>\<open>cleanDisplayName\<close>: \<^verbatim>\<open>/\b\w/g\<close> matches the first character of every word.\<close>

definition is_word :: "char \<Rightarrow> bool" where
  "is_word c = (c \<in> set (upper_chars @ lower_chars @ digit_chars @ ''_''))"

fun capitalizeWords :: "bool \<Rightarrow> string \<Rightarrow> string" where
  "capitalizeWords prev [] = []"
| "capitalizeWords prev (c # cs) =
     (if is_word c \<and> \<not> prev then toUpperChar c else c) # capitalizeWords (is_word c) cs"

definition cleanDisplayName :: "string \<Rightarrow> string" where
  "cleanDisplayName name =
     (if startsWith name ''<'' \<and> endsWith name ''>'' then
        (let inner = butlast (tl name)
         in if CHR ''_'' \<in> set inner \<and> inner = toLowerCase inner
            then capitalizeWords False (map (\<lambda>c. if c = CHR ''_'' then CHR '' '' else c) inner)
            else inner)
      else name)"

text \<open>
  \<^verbatim>\<open>expandChildDisplayName\<close> builds the regular expression \<^verbatim>\<open>\bWORD\b\<close> from a
  literal word: a match is an occurrence of the word with a word boundary on each side.
\<close>

definition word_boundary :: "string \<Rightarrow> nat \<Rightarrow> bool" where
  "word_boundary s p =
     ((0 < p \<and> p \<le> length s \<and> is_word (s ! (p - 1))) \<noteq> (p < length s \<and> is_word (s ! p)))"

definition word_match_at :: "string \<Rightarrow> string \<Rightarrow> nat \<Rightarrow> bool" where
  "word_match_at s w i =
     (i + length w \<le> length s \<and> take (length w) (drop i s) = w
      \<and> word_boundary s i \<and> word_boundary s (i + length w))"

definition find_word :: "string \<Rightarrow> string \<Rightarrow> nat option" where
  "find_word s w = find (word_match_at s w) [0 ..< Suc (length s)]"

definition remove_word :: "string \<Rightarrow> string \<Rightarrow> string" where
  "remove_word s w =
     (case find_word s w of
        None \<Rightarrow> s
      | Some i \<Rightarrow> take i s @ drop (i + length w) s)"

function collapse_ws :: "string \<Rightarrow> string" where
  "collapse_ws [] = []"
| "collapse_ws (c # cs) =
     (if is_ws c then CHR '' '' # collapse_ws (dropWhile is_ws cs) else c # collapse_ws cs)"
  by pat_completeness auto
termination
  by (relation "measure length") (auto simp: length_dropWhile_le less_Suc_eq_le)

definition expandChildDisplayName :: "string \<Rightarrow> string \<Rightarrow> string list \<Rightarrow> string" where
  "expandChildDisplayName childDisplay parentDisplay siblingDisplays =
     (if 1 < length (split_on (CHR '' '') childDisplay) then childDisplay
      else if find_word parentDisplay childDisplay = None then childDisplay
      else
       (let result = foldl remove_word (replaceAll '' / '' '' '' parentDisplay) siblingDisplays;
            result = trim (collapse_ws result)
        in if result = [] then childDisplay else result))"

section \<open>Objects as ordered property lists\<close>

text \<open>
  A JavaScript object used as a dictionary is the list of its own properties in the order
  \<^verbatim>\<open>Object.entries\<close> gives them: the keys that are array indices first, in ascending
  numeric order, then the other keys in the order they were first set. Setting an existing
  key keeps its place. Keys that name a member of \<^verbatim>\<open>Object.prototype\<close> (such as
  \<^verbatim>\<open>constructor\<close> or \<^verbatim>\<open>__proto__\<close>) are outside the model: a lookup sees own
  properties only.
\<close>

definition is_array_index :: "string \<Rightarrow> bool" where
  "is_array_index k =
     (k \<noteq> [] \<and> list_all is_digit k \<and> (k = ''0'' \<or> \<not> startsWith k ''0'')
      \<and> dec_value k < 4294967295)"

definition key_before :: "string \<Rightarrow> string \<Rightarrow> bool" where
  "key_before k k' =
     (is_array_index k \<and> (if is_array_index k' then dec_value k < dec_value k' else True))"

fun obj_insert :: "(string \<times> 'v) list \<Rightarrow> string \<Rightarrow> 'v \<Rightarrow> (string \<times> 'v) list" where
  "obj_insert [] k v = [(k, v)]"
| "obj_insert ((k', v') # rest) k v =
     (if key_before k k' then (k, v) # (k', v') # rest
      else (k', v') # obj_insert rest k v)"

definition obj_get :: "(string \<times> 'v) list \<Rightarrow> string \<Rightarrow> 'v option" where
  "obj_get obj k = map_of obj k"

definition obj_keys :: "(string \<times> 'v) list \<Rightarrow> string list" where
  "obj_keys obj = map fst obj"

text \<open>Changing the value held under a key, in place.\<close>

definition obj_update :: "(string \<times> 'v) list \<Rightarrow> string \<Rightarrow> ('v \<Rightarrow> 'v) \<Rightarrow> (string \<times> 'v) list" where
  "obj_update obj k f = map (\<lambda>(k', v). if k' = k then (k', f v) else (k', v)) obj"

text \<open>\<^verbatim>\<open>obj[k] = v\<close>.\<close>

definition obj_set :: "(string \<times> 'v) list \<Rightarrow> string \<Rightarrow> 'v \<Rightarrow> (string \<times> 'v) list" where
  "obj_set obj k v =
     (if k \<in> set (obj_keys obj) then obj_update obj k (\<lambda>_. v) else obj_insert obj k v)"

section \<open>The draft match record\<close>

text \<open>
  The object \<^verbatim>\<open>parseLuaContent\<close> builds. A number read by \<^verbatim>\<open>parseInt\<close> is an
  \<^typ>\<open>int option\<close> (\<^const>\<open>None\<close> is \<^verbatim>\<open>NaN\<close>); a group id read from a
  \<^verbatim>\<open>#group\<close> line with no field is \<^verbatim>\<open>undefined\<close>, here \<^const>\<open>None\<close>; a score
  value is the literal \<^const>\<open>parseFloat\<close> read.
\<close>

record property_meta =
  displayName :: string
  groupId :: "string option"
  groupName :: "string option"
  sortDirection :: string
  isSummary :: bool
  parentId :: "string option"
  childIds :: "string option"
  rowOrder :: "int option"
  visible :: bool
  pluginId :: string

type_synonym metadata_obj = "(string \<times> property_meta) list"

record game =
  filename :: string
  timestamp :: int
  missionId :: string
  difficulty :: "int option"
  modifier :: string
  result :: string
  durationSeconds :: "int option"
  players :: "(int option \<times> string \<times> string) list"
  propertyMetadata :: metadata_obj
  scores :: "(string \<times> string \<times> string) list"
  discoveredBots :: "(string \<times> string) list"
  discoveredExtraPlayers :: "string list"

definition DEFAULT_GROUP_ID :: string where
  "DEFAULT_GROUP_ID = ''row_resource_score''"

definition DEFAULT_GROUP_NAME :: string where
  "DEFAULT_GROUP_NAME = ''Resource & Teamwork''"

section \<open>The parser\<close>

definition parseMissionLine :: "string \<Rightarrow> game \<Rightarrow> game" where
  "parseMissionLine line game =
     (let parts = split_on (CHR '';'') line
      in if length parts < 3 then game
         else
          (let rawModifier = (if 3 < length parts then parts ! 3 else [])
           in game\<lparr>missionId := trim (parts ! 1),
                   difficulty := parseInt (parts ! 2),
                   modifier := (if rawModifier = ''nil'' \<or> rawModifier = ''default'' \<or> rawModifier = []
                                then [] else rawModifier),
                   result := (if 4 < length parts then parts ! 4 else ''unknown''),
                   durationSeconds := (if 5 < length parts then parseInt (parts ! 5) else Some 0)\<rparr>))"

text \<open>A loop bound read by \<^verbatim>\<open>parseInt\<close>: \<^verbatim>\<open>i < NaN\<close> is false, so is \<^verbatim>\<open>i < n\<close> for \<open>n \<le> 0\<close>.\<close>

definition loop_count :: "int option \<Rightarrow> nat" where
  "loop_count c = (case c of None \<Rightarrow> 0 | Some n \<Rightarrow> nat n)"

fun playersLoop :: "string list \<Rightarrow> nat \<Rightarrow> nat \<Rightarrow> game \<Rightarrow> string set \<Rightarrow> nat \<times> game \<times> string set" where
  "playersLoop lines 0 lineIndex game knownPlayerIds = (lineIndex, game, knownPlayerIds)"
| "playersLoop lines (Suc n) lineIndex game knownPlayerIds =
     (if length lines \<le> lineIndex + 1 then (lineIndex + 1, game, knownPlayerIds)
      else
       (let playerParts = split_on (CHR '';'') (trim (lines ! (lineIndex + 1)))
        in if length playerParts < 2 then playersLoop lines n (lineIndex + 1) game knownPlayerIds
           else
            (let slot = parseInt (playerParts ! 0);
                 playerId = playerParts ! 1;
                 playerName = (if 2 < length playerParts then playerParts ! 2 else ''Unknown'')
             in playersLoop lines n (lineIndex + 1)
                  (game\<lparr>players := players game @ [(slot, playerId, playerName)]\<rparr>)
                  (insert playerId knownPlayerIds))))"

definition parsePlayersSection :: "string list \<Rightarrow> nat \<Rightarrow> game \<Rightarrow> string set \<Rightarrow> nat \<times> game \<times> string set" where
  "parsePlayersSection lines lineIndex game knownPlayerIds =
     (let parts = split_on (CHR '';'') (trim (lines ! lineIndex))
      in if length parts < 2 then (lineIndex, game, knownPlayerIds)
         else playersLoop lines (loop_count (parseInt (parts ! 1))) lineIndex game knownPlayerIds)"

text \<open>\<^verbatim>\<open>Set.prototype.add\<close> on a set kept in insertion order.\<close>

definition list_add :: "'a list \<Rightarrow> 'a \<Rightarrow> 'a list" where
  "list_add xs x = (if x \<in> set xs then xs else xs @ [x])"

text \<open>\<^verbatim>\<open>parseFloat(dataParts[1])\<close>: a missing field is \<^verbatim>\<open>undefined\<close>, which reads as \<^verbatim>\<open>NaN\<close>.\<close>

definition numericValue :: "string list \<Rightarrow> string option" where
  "numericValue dataParts = (if 1 < length dataParts then parseFloat (dataParts ! 1) else None)"

text \<open>
  The body of the data-line loop of \<^verbatim>\<open>parseRowSection\<close> after the check for an empty
  line or a directive: one \<^verbatim>\<open>participantToken;numericValue\<close> line.
\<close>

definition scoreLine :: "string \<Rightarrow> string set \<Rightarrow> game \<Rightarrow> string \<Rightarrow> game" where
  "scoreLine rowId knownPlayerIds game dataLine =
     (let dataParts = split_on (CHR '';'') dataLine;
          rawPlayerIdentifier = dataParts ! 0
      in case numericValue dataParts of
           None \<Rightarrow> game
         | Some val \<Rightarrow>
            (if isUuid rawPlayerIdentifier then
               (let game1 = (if rawPlayerIdentifier \<in> knownPlayerIds then game
                             else game\<lparr>discoveredExtraPlayers :=
                                     list_add (discoveredExtraPlayers game) rawPlayerIdentifier\<rparr>)
                in game1\<lparr>scores := scores game1 @ [(rowId, rawPlayerIdentifier, val)]\<rparr>)
             else
               (let botId = generateBotIdentifier rawPlayerIdentifier;
                    game1 = game\<lparr>discoveredBots :=
                              obj_set (discoveredBots game) botId (stripColorCodes rawPlayerIdentifier)\<rparr>
                in game1\<lparr>scores := scores game1 @ [(rowId, botId, val)]\<rparr>)))"

fun rowLoop :: "string list \<Rightarrow> string \<Rightarrow> string set \<Rightarrow> nat \<Rightarrow> nat \<Rightarrow> game \<Rightarrow> nat \<times> game" where
  "rowLoop lines rowId knownPlayerIds 0 lineIndex game = (lineIndex, game)"
| "rowLoop lines rowId knownPlayerIds (Suc n) lineIndex game =
     (if length lines \<le> lineIndex + 1 then (lineIndex + 1, game)
      else
       (let dataLine = trim (lines ! (lineIndex + 1))
        in if dataLine = [] \<or> startsWith dataLine ''#'' then (lineIndex, game)
           else rowLoop lines rowId knownPlayerIds n (lineIndex + 1)
                  (scoreLine rowId knownPlayerIds game dataLine)))"

definition parseRowSection ::
  "string list \<Rightarrow> nat \<Rightarrow> string \<Rightarrow> game \<Rightarrow> string set \<Rightarrow> string option \<Rightarrow> string option \<Rightarrow> nat \<times> game" where
  "parseRowSection lines lineIndex line game knownPlayerIds currentGroupId currentGroupName =
     (let parts = split_on (CHR '';'') line
      in if length parts < 2 then (lineIndex, game)
         else
          (let rowId = parts ! 1;
               rowOrder' = (if 2 < length parts then parseInt (parts ! 2) else Some 0);
               dataLineCount = (if 3 < length parts then parseInt (parts ! 3) else Some 0);
               displayName' = (if 4 < length parts then cleanDisplayName (parts ! 4) else rowId);
               sortDirection' = (if 5 < length parts then parts ! 5 else ''ASC'');
               flagField = (if 7 < length parts then parts ! 7 else ''nil'');
               pluginId' = (if 9 < length parts then parts ! 9 else []);
               parentIdRaw = (if 10 < length parts then parts ! 10 else ''nil'');
               childIdsRaw = (if 12 < length parts then parts ! 12 else ''nil'');
               parentId' = (if parentIdRaw = ''nil'' then None else Some parentIdRaw);
               childIds' = (if childIdsRaw = ''nil'' then None else Some childIdsRaw);
               isSummary' = (case childIds' of None \<Rightarrow> False | Some c \<Rightarrow> CHR '':'' \<in> set c);
               visible' = (flagField \<noteq> ''false'');
               game1 = game\<lparr>propertyMetadata := obj_set (propertyMetadata game) rowId
                         \<lparr>displayName = displayName', groupId = currentGroupId,
                          groupName = currentGroupName, sortDirection = sortDirection',
                          isSummary = isSummary', parentId = parentId', childIds = childIds',
                          rowOrder = rowOrder', visible = visible', pluginId = pluginId'\<rparr>\<rparr>
           in rowLoop lines rowId knownPlayerIds (loop_count dataLineCount) lineIndex game1))"

subsection \<open>The hierarchy post-pass\<close>

text \<open>
  \<^verbatim>\<open>linkOrphanedChildren\<close>, first half: every property with a child list offers itself,
  with the length of its list, to each listed child that exists and has no parent; each
  child then takes the first offer of the stable sort by length.
\<close>

definition is_orphan :: "metadata_obj \<Rightarrow> string \<Rightarrow> bool" where
  "is_orphan pm childId =
     (case obj_get pm childId of None \<Rightarrow> False | Some m \<Rightarrow> parentId m = None)"

definition pushCandidate ::
  "(string \<times> (string \<times> nat) list) list \<Rightarrow> string \<Rightarrow> string \<times> nat \<Rightarrow> (string \<times> (string \<times> nat) list) list" where
  "pushCandidate candidates childId opt =
     obj_set candidates childId
       ((case obj_get candidates childId of None \<Rightarrow> [] | Some opts \<Rightarrow> opts) @ [opt])"

definition rowCandidates ::
  "metadata_obj \<Rightarrow> (string \<times> (string \<times> nat) list) list \<Rightarrow> string \<times> property_meta
     \<Rightarrow> (string \<times> (string \<times> nat) list) list" where
  "rowCandidates pm candidates entry =
     (case entry of (rowId, metadata) \<Rightarrow>
        (case childIds metadata of
           None \<Rightarrow> candidates
         | Some cs \<Rightarrow>
            if cs = [] then candidates
            else
             (let childList = split_on (CHR '':'') cs;
                  childCount = length childList
              in foldl (\<lambda>cands childId.
                          if is_orphan pm childId
                          then pushCandidate cands childId (rowId, childCount)
                          else cands)
                   candidates childList)))"

definition collectCandidates :: "metadata_obj \<Rightarrow> (string \<times> (string \<times> nat) list) list" where
  "collectCandidates pm = foldl (rowCandidates pm) [] pm"

definition assignParent :: "metadata_obj \<Rightarrow> string \<times> (string \<times> nat) list \<Rightarrow> metadata_obj" where
  "assignParent pm entry =
     (case entry of (childId, parentOptions) \<Rightarrow>
        (case sort_key snd parentOptions of
           [] \<Rightarrow> pm
         | best # _ \<Rightarrow> obj_update pm childId (\<lambda>m. m\<lparr>parentId := Some (fst best)\<rparr>)))"

definition linkByChildLists :: "metadata_obj \<Rightarrow> metadata_obj" where
  "linkByChildLists pm = foldl assignParent pm (collectCandidates pm)"

text \<open>
  Second half: \<^verbatim>\<open>pluginParents\<close> maps a plugin id to a visible property without parent
  that carries it, a later property overwriting an earlier one; every invisible property
  without parent then takes the entry of its plugin id.
\<close>

definition pluginParents :: "metadata_obj \<Rightarrow> (string \<rightharpoonup> string)" where
  "pluginParents pm =
     foldl (\<lambda>pp (rowId, metadata).
              if pluginId metadata \<noteq> [] \<and> visible metadata \<and> parentId metadata = None
              then pp(pluginId metadata \<mapsto> rowId) else pp)
       Map.empty pm"

definition attachToPlugin :: "(string \<rightharpoonup> string) \<Rightarrow> string \<times> property_meta \<Rightarrow> string \<times> property_meta" where
  "attachToPlugin pp entry =
     (case entry of (rowId, metadata) \<Rightarrow>
        if parentId metadata \<noteq> None \<or> visible metadata then (rowId, metadata)
        else if pluginId metadata \<noteq> []
                \<and> (case pp (pluginId metadata) of None \<Rightarrow> False | Some r \<Rightarrow> r \<noteq> rowId)
        then (rowId, metadata\<lparr>parentId := pp (pluginId metadata)\<rparr>)
        else (rowId, metadata))"

definition linkByPlugin :: "metadata_obj \<Rightarrow> metadata_obj" where
  "linkByPlugin pm = map (attachToPlugin (pluginParents pm)) pm"

definition linkOrphanedChildren :: "game \<Rightarrow> game" where
  "linkOrphanedChildren game =
     game\<lparr>propertyMetadata := linkByPlugin (linkByChildLists (propertyMetadata game))\<rparr>"

text \<open>
  \<^verbatim>\<open>expandChildDisplayNames\<close>: the names of the siblings are the names before the pass,
  the name of the parent is its current one.
\<close>

definition expandOne :: "(string \<times> string) list \<Rightarrow> metadata_obj \<Rightarrow> string \<Rightarrow> metadata_obj" where
  "expandOne rawNames pm rowId =
     (case obj_get pm rowId of
        None \<Rightarrow> pm
      | Some metadata \<Rightarrow>
         (case parentId metadata of
            None \<Rightarrow> pm
          | Some pid \<Rightarrow>
             (case (if pid = [] then None else obj_get pm pid) of
                None \<Rightarrow> pm
              | Some parentMetadata \<Rightarrow>
                 (let siblingDisplays =
                        map (\<lambda>e. case obj_get rawNames (fst e) of None \<Rightarrow> [] | Some n \<Rightarrow> n)
                          (filter (\<lambda>e. fst e \<noteq> rowId \<and> parentId (snd e) = Some pid) pm);
                      rawName = (case obj_get rawNames rowId of None \<Rightarrow> [] | Some n \<Rightarrow> n)
                  in obj_update pm rowId
                       (\<lambda>m. m\<lparr>displayName :=
                          expandChildDisplayName rawName (displayName parentMetadata) siblingDisplays\<rparr>)))))"

definition expandChildDisplayNames :: "game \<Rightarrow> game" where
  "expandChildDisplayNames game =
     (let pm = propertyMetadata game;
          rawNames = map (\<lambda>e. (fst e, displayName (snd e))) pm
      in game\<lparr>propertyMetadata := foldl (expandOne rawNames) pm (obj_keys pm)\<rparr>)"

subsection \<open>The directive loop\<close>

record parser_state =
  ps_game :: game
  ps_known :: "string set"
  ps_groupId :: "string option"
  ps_groupName :: "string option"

text \<open>One turn of the \<^verbatim>\<open>while\<close> loop of \<^verbatim>\<open>parseLuaContent\<close>: the next line index and the state.\<close>

definition parseStep :: "string list \<Rightarrow> nat \<Rightarrow> parser_state \<Rightarrow> nat \<times> parser_state" where
  "parseStep lines lineIndex st =
     (let line = trim (lines ! lineIndex)
      in if line = [] then (lineIndex + 1, st)
         else if startsWith line ''#mission'' then
           (lineIndex + 1, st\<lparr>ps_game := parseMissionLine line (ps_game st)\<rparr>)
         else if startsWith line ''#players'' then
           (case parsePlayersSection lines lineIndex (ps_game st) (ps_known st) of
              (li, g, k) \<Rightarrow> (li + 1, st\<lparr>ps_game := g, ps_known := k\<rparr>))
         else if startsWith line ''#group'' then
           (let parts = split_on (CHR '';'') line;
                gid = (if 1 < length parts then Some (parts ! 1) else None)
            in (lineIndex + 1,
                st\<lparr>ps_groupId := gid,
                   ps_groupName := (if 2 < length parts then Some (parts ! 2) else gid)\<rparr>))
         else if startsWith line ''#row'' then
           (case parseRowSection lines lineIndex line (ps_game st) (ps_known st)
                   (ps_groupId st) (ps_groupName st) of
              (li, g) \<Rightarrow> (li + 1, st\<lparr>ps_game := g\<rparr>))
         else (lineIndex + 1, st))"

lemma playersLoop_ge: "lineIndex \<le> fst (playersLoop lines n lineIndex game known)"
proof (induction n arbitrary: lineIndex game known)
  case 0
  show ?case by simp
next
  case (Suc n)
  have a: "lineIndex + 1 \<le> fst (playersLoop lines n (lineIndex + 1) g k)" for g k
    by (rule Suc.IH)
  have "lineIndex \<le> fst (playersLoop lines n (lineIndex + 1) g k)" for g k
    using a [of g k] by simp
  then show ?case by (simp add: Let_def)
qed

lemma rowLoop_ge: "lineIndex \<le> fst (rowLoop lines rowId known n lineIndex game)"
proof (induction n arbitrary: lineIndex game)
  case 0
  show ?case by simp
next
  case (Suc n)
  have a: "lineIndex + 1 \<le> fst (rowLoop lines rowId known n (lineIndex + 1) g)" for g
    by (rule Suc.IH)
  have "lineIndex \<le> fst (rowLoop lines rowId known n (lineIndex + 1) g)" for g
    using a [of g] by simp
  then show ?case by (simp add: Let_def)
qed

lemma parseStep_progress: "lineIndex < fst (parseStep lines lineIndex st)"
proof -
  have p: "lineIndex \<le> fst (parsePlayersSection lines lineIndex g k)" for g k
    by (simp add: parsePlayersSection_def Let_def playersLoop_ge)
  have r: "lineIndex \<le> fst (parseRowSection lines lineIndex l g k gi gn)" for l g k gi gn
    by (simp add: parseRowSection_def Let_def rowLoop_ge)
  show ?thesis
    using p [of "ps_game st" "ps_known st"]
      r [of "trim (lines ! lineIndex)" "ps_game st" "ps_known st" "ps_groupId st" "ps_groupName st"]
    by (auto simp: parseStep_def Let_def split: prod.splits)
qed

function parseLines :: "string list \<Rightarrow> nat \<Rightarrow> parser_state \<Rightarrow> parser_state" where
  "parseLines lines lineIndex st =
     (if lineIndex < length lines
      then (case parseStep lines lineIndex st of (li, st') \<Rightarrow> parseLines lines li st')
      else st)"
  by pat_completeness auto
termination
proof (relation "measure (\<lambda>(lines, lineIndex, st). length lines - lineIndex)", goal_cases)
  case 1
  show ?case by simp
next
  case (2 lines lineIndex st li st')
  from 2 have "li = fst (parseStep lines lineIndex st)"
    by (metis fst_conv)
  with parseStep_progress [of lineIndex lines st] have "lineIndex < li"
    by simp
  moreover from 2 have "lineIndex < length lines"
    by simp
  ultimately show ?case by simp
qed

declare parseLines.simps [simp del]

definition stripLuaExt :: "string \<Rightarrow> string" where
  "stripLuaExt name =
     (if endsWith (toLowerCase name) ''.lua'' then take (length name - 4) name else name)"

definition newGame :: "string \<Rightarrow> int \<Rightarrow> game" where
  "newGame name ts =
     \<lparr>filename = name, timestamp = ts, missionId = [], difficulty = Some 0, modifier = [],
      result = [], durationSeconds = Some 0, players = [], propertyMetadata = [], scores = [],
      discoveredBots = [], discoveredExtraPlayers = []\<rparr>"

text \<open>\<^verbatim>\<open>parseLuaContent\<close>: \<^const>\<open>None\<close> is the \<^verbatim>\<open>null\<close> returned for a non-numeric filename.\<close>

definition parseLuaContent :: "string \<Rightarrow> string \<Rightarrow> game option" where
  "parseLuaContent name content =
     (case parseInt (stripLuaExt name) of
        None \<Rightarrow> None
      | Some ts \<Rightarrow>
         (let lines = split_on (CHR 0x0A) (replaceAll [CHR 0x0D, CHR 0x0A] [CHR 0x0A] (trim content));
              st = parseLines lines 0
                     \<lparr>ps_game = newGame name ts, ps_known = {},
                      ps_groupId = Some DEFAULT_GROUP_ID, ps_groupName = Some DEFAULT_GROUP_NAME\<rparr>
          in Some (expandChildDisplayNames (linkOrphanedChildren (ps_game st)))))"

section \<open>The store\<close>

text \<open>
  The tables of \<^verbatim>\<open>SCHEMA_SQL\<close> that ingestion and the game query use, each the list of
  its rows in insertion order. \<^verbatim>\<open>seq_games\<close> is the \<^verbatim>\<open>AUTOINCREMENT\<close> counter of
  \<^verbatim>\<open>games.id\<close>: the largest id ever given. The columns are typed as the schema declares
  them, every \<^verbatim>\<open>NOT NULL\<close> column without \<^typ>\<open>'a option\<close>.
\<close>

record game_row =
  g_id :: nat
  g_filename :: string
  g_timestamp :: int
  g_mission_id :: string
  g_mission_name :: string
  g_difficulty :: int
  g_modifier :: string
  g_result :: string
  g_duration_seconds :: int

record player_row =
  p_id :: string
  p_is_bot :: bool

record game_player_row =
  gp_game_id :: nat
  gp_player_id :: string
  gp_slot :: int
  gp_name :: string
  gp_quitter :: bool

record property_row =
  pr_id :: string
  pr_display_name :: string
  pr_group_id :: string
  pr_group_name :: string
  pr_sort_direction :: string
  pr_is_summary :: bool
  pr_parent_id :: "string option"
  pr_child_ids :: "string option"
  pr_row_order :: int
  pr_visible :: bool

record score_row =
  s_game_id :: nat
  s_player_id :: string
  s_property_id :: string
  s_value :: string

record database =
  tbl_games :: "game_row list"
  seq_games :: nat
  tbl_players :: "player_row list"
  tbl_game_players :: "game_player_row list"
  tbl_properties :: "property_row list"
  tbl_scores :: "score_row list"

definition empty_db :: database where
  "empty_db = \<lparr>tbl_games = [], seq_games = 0, tbl_players = [], tbl_game_players = [],
               tbl_properties = [], tbl_scores = []\<rparr>"

text \<open>
  A statement that fails changes nothing (the engine backs out the statement, not the
  transaction) and raises an exception in the caller. The failures modelled are those of
  the schema and of binding a value; the limits of the engine (the number of bound
  parameters of one statement, memory) are not.
\<close>

datatype db_error = UniqueViolation | NotNullViolation | BindUndefined

definition MISSION_NAMES :: "(string \<times> string) list" where
  "MISSION_NAMES =
     [(''cm_habs'', ''Hab Dreyko''), (''cm_raid'', ''Dark Communion''),
      (''cm_archives'', ''Chasm Logistratum''), (''lm_rails'', ''Enclavum Baross''),
      (''lm_scavenge'', ''Mercantile HL-70-04''), (''lm_cooling'', ''Silo Cluster 18-66/a''),
      (''fm_armoury'', ''Power Matrix HL-17-36''), (''fm_cargo'', ''Consignment Yard HL-17-36''),
      (''fm_resurgence'', ''Smelter Complex HL-17-36''), (''dm_stockpile'', ''Ascension Riser 31''),
      (''dm_propaganda'', ''Comms-Plex 154/2f''), (''dm_rise'', ''Magistrati Oubliette TM8-707''),
      (''dm_forge'', ''Archivum Sycorax''), (''hm_complex'', ''Refinery Delta-17''),
      (''hm_cartel'', ''Excise Vault Spireside-13''), (''hm_strain'', ''Relay Station TRS-150''),
      (''km_enforcer'', ''Warren 6-19''), (''km_station'', ''Chasm Station HL-16-11''),
      (''km_heresy'', ''Vigil Station Oblivium''), (''km_enforcer_twins'', ''Orthus Offensive''),
      (''core_research'', ''Clandestium Gloriana''), (''op_train'', ''Rolling Steel''),
      (''op_no_mans_land'', ''Battle for Tertium''), (''hub_ship'', ''Mourningstar (Hub)''),
      (''psykhanium'', ''Mortis Trials'')]"

definition LONG_GAME_THRESHOLD_SECONDS :: int where
  "LONG_GAME_THRESHOLD_SECONDS = 1200"

definition INGEST_BATCH_SIZE :: nat where
  "INGEST_BATCH_SIZE = 200"

definition SCORE_BATCH :: nat where
  "SCORE_BATCH = 500"

subsection \<open>The statements of \<^verbatim>\<open>insertGame\<close>\<close>

text \<open>
  \<^verbatim>\<open>INSERT INTO games\<close>: a \<^verbatim>\<open>NaN\<close> is bound as \<^verbatim>\<open>NULL\<close> and violates
  \<^verbatim>\<open>NOT NULL\<close>; a filename already in the table violates \<^verbatim>\<open>UNIQUE\<close>. On success
  the new row's id is returned (\<^verbatim>\<open>last_insert_rowid()\<close>).
\<close>

definition next_game_id :: "database \<Rightarrow> nat" where
  "next_game_id db = Suc (foldl max (seq_games db) (map g_id (tbl_games db)))"

definition insert_game_row :: "database \<Rightarrow> game \<Rightarrow> string \<Rightarrow> db_error + (nat \<times> database)" where
  "insert_game_row db game missionName =
     (case difficulty game of
        None \<Rightarrow> Inl NotNullViolation
      | Some diff \<Rightarrow>
         (case durationSeconds game of
            None \<Rightarrow> Inl NotNullViolation
          | Some dur \<Rightarrow>
             if filename game \<in> set (map g_filename (tbl_games db)) then Inl UniqueViolation
             else
              (let gameId = next_game_id db
               in Inr (gameId,
                    db\<lparr>tbl_games := tbl_games db @
                          [\<lparr>g_id = gameId, g_filename = filename game,
                            g_timestamp = timestamp game, g_mission_id = missionId game,
                            g_mission_name = missionName, g_difficulty = diff,
                            g_modifier = modifier game, g_result = result game,
                            g_duration_seconds = dur\<rparr>],
                       seq_games := gameId\<rparr>))))"

text \<open>\<^verbatim>\<open>INSERT OR IGNORE INTO players\<close>, one row: the primary key is the id.\<close>

definition insert_or_ignore_player :: "database \<Rightarrow> string \<times> bool \<Rightarrow> database" where
  "insert_or_ignore_player db row =
     (case row of (playerId, isBot) \<Rightarrow>
        if playerId \<in> set (map p_id (tbl_players db)) then db
        else db\<lparr>tbl_players := tbl_players db @ [\<lparr>p_id = playerId, p_is_bot = isBot\<rparr>]\<rparr>)"

text \<open>
  \<^verbatim>\<open>INSERT OR IGNORE INTO game_players\<close>, one row: a slot that is \<^verbatim>\<open>NaN\<close> is
  \<^verbatim>\<open>NULL\<close> in a \<^verbatim>\<open>NOT NULL\<close> column, and the row is skipped; so is a row whose
  (game, player) pair is in the table.
\<close>

definition insert_or_ignore_game_player ::
  "database \<Rightarrow> nat \<times> string \<times> int option \<times> string \<times> bool \<Rightarrow> database" where
  "insert_or_ignore_game_player db row =
     (case row of (gameId, playerId, slot, name, quitter) \<Rightarrow>
        (case slot of
           None \<Rightarrow> db
         | Some sl \<Rightarrow>
            if (gameId, playerId) \<in> set (map (\<lambda>r. (gp_game_id r, gp_player_id r)) (tbl_game_players db))
            then db
            else db\<lparr>tbl_game_players := tbl_game_players db @
                       [\<lparr>gp_game_id = gameId, gp_player_id = playerId, gp_slot = sl,
                         gp_name = name, gp_quitter = quitter\<rparr>]\<rparr>))"

text \<open>
  \<^verbatim>\<open>INSERT OR REPLACE INTO properties\<close>, all rows in one statement. A group id or name
  that is \<^verbatim>\<open>undefined\<close> cannot be bound (and the columns are \<^verbatim>\<open>NOT NULL\<close> with no
  default): the statement fails as a whole. A row order that is \<^verbatim>\<open>NaN\<close> takes the
  column's default 0. A row replaces the row of the same id.
\<close>

definition property_row_of :: "string \<times> property_meta \<Rightarrow> property_row option" where
  "property_row_of entry =
     (case entry of (rowId, m) \<Rightarrow>
        (case groupId m of
           None \<Rightarrow> None
         | Some gid \<Rightarrow>
            (case groupName m of
               None \<Rightarrow> None
             | Some gname \<Rightarrow>
                Some \<lparr>pr_id = rowId, pr_display_name = displayName m, pr_group_id = gid,
                      pr_group_name = gname, pr_sort_direction = sortDirection m,
                      pr_is_summary = isSummary m, pr_parent_id = parentId m,
                      pr_child_ids = childIds m,
                      pr_row_order = (case rowOrder m of None \<Rightarrow> 0 | Some n \<Rightarrow> n),
                      pr_visible = visible m\<rparr>)))"

definition replace_property :: "property_row list \<Rightarrow> property_row \<Rightarrow> property_row list" where
  "replace_property rows r = filter (\<lambda>r'. pr_id r' \<noteq> pr_id r) rows @ [r]"

definition insert_or_replace_properties :: "database \<Rightarrow> metadata_obj \<Rightarrow> db_error + database" where
  "insert_or_replace_properties db propEntries =
     (if list_all (\<lambda>e. property_row_of e \<noteq> None) propEntries
      then Inr (db\<lparr>tbl_properties :=
                    foldl replace_property (tbl_properties db)
                      (List.map_filter property_row_of propEntries)\<rparr>)
      else Inl BindUndefined)"

text \<open>\<^verbatim>\<open>INSERT OR IGNORE INTO scores\<close>, one row, and the loop over batches of 500 rows.\<close>

definition insert_or_ignore_score :: "nat \<Rightarrow> database \<Rightarrow> string \<times> string \<times> string \<Rightarrow> database" where
  "insert_or_ignore_score gameId db row =
     (case row of (propertyId, playerId, val) \<Rightarrow>
        if (gameId, playerId, propertyId)
             \<in> set (map (\<lambda>r. (s_game_id r, s_player_id r, s_property_id r)) (tbl_scores db))
        then db
        else db\<lparr>tbl_scores := tbl_scores db @
                   [\<lparr>s_game_id = gameId, s_player_id = playerId, s_property_id = propertyId,
                     s_value = val\<rparr>]\<rparr>)"

function insertScoreBatches :: "nat \<Rightarrow> (string \<times> string \<times> string) list \<Rightarrow> database \<Rightarrow> database" where
  "insertScoreBatches gameId rows db =
     (if rows = [] then db
      else insertScoreBatches gameId (drop SCORE_BATCH rows)
             (foldl (insert_or_ignore_score gameId) db (take SCORE_BATCH rows)))"
  by pat_completeness auto
termination
  by (relation "measure (\<lambda>(gameId, rows, db). length rows)") (auto simp: SCORE_BATCH_def)

declare insertScoreBatches.simps [simp del]

text \<open>
  \<^verbatim>\<open>insertGame\<close>: the error of the statement that failed, if one did, and the tables as
  the statements before it left them.
\<close>

definition insertGame :: "game \<Rightarrow> database \<Rightarrow> db_error option \<times> database" where
  "insertGame game db =
     (let missionName = (case map_of MISSION_NAMES (missionId game) of
                           None \<Rightarrow> missionId game | Some n \<Rightarrow> n)
      in case insert_game_row db game missionName of
           Inl e \<Rightarrow> (Some e, db)
         | Inr (gameId, db1) \<Rightarrow>
            (let playerRows =
                   map (\<lambda>(slot, playerId, playerName). (playerId, False)) (players game)
                   @ map (\<lambda>(botId, cleanName). (botId, True)) (discoveredBots game)
                   @ map (\<lambda>extraId. (extraId, False)) (discoveredExtraPlayers game);
                 gamePlayerRows =
                   map (\<lambda>(slot, playerId, playerName). (gameId, playerId, slot, playerName, False))
                     (players game)
                   @ map (\<lambda>(botId, cleanName). (gameId, botId, Some (- 1), cleanName, False))
                       (discoveredBots game)
                   @ map (\<lambda>extraId. (gameId, extraId, Some (- 1), ''Unknown'', True))
                       (discoveredExtraPlayers game);
                 db2 = foldl insert_or_ignore_player db1 playerRows;
                 db3 = foldl insert_or_ignore_game_player db2 gamePlayerRows
             in case insert_or_replace_properties db3 (propertyMetadata game) of
                  Inl e \<Rightarrow> (Some e, db3)
                | Inr db4 \<Rightarrow> (None, insertScoreBatches gameId (scores game) db4)))"

section \<open>Ingestion\<close>

text \<open>
  The store is the in-memory tables and the image last written by \<^verbatim>\<open>saveDatabase\<close>.
  \<^verbatim>\<open>ingestFiles\<close> brackets each batch with \<^verbatim>\<open>BEGIN\<close> and \<^verbatim>\<open>COMMIT\<close> and never
  rolls back, so the tables it leaves are the tables as its statements wrote them. A file
  source is the list of its files, each a name and its text; reading a file does not fail.
\<close>

record store =
  st_db :: database
  st_saved :: "database option"

definition saveDatabase :: "store \<Rightarrow> store" where
  "saveDatabase s = s\<lparr>st_saved := Some (st_db s)\<rparr>"

record ingest_report =
  ingested :: nat
  errors :: nat
  total :: nat

text \<open>
  \<^verbatim>\<open>luaFiles.sort((a, b) => a.name.localeCompare(b.name))\<close>: the sort is stable; the
  collation \<^verbatim>\<open>localeCompare\<close> is the host's and is a parameter.
\<close>

fun insert_sorted :: "('a \<Rightarrow> 'a \<Rightarrow> int) \<Rightarrow> 'a \<Rightarrow> 'a list \<Rightarrow> 'a list" where
  "insert_sorted cmp x [] = [x]"
| "insert_sorted cmp x (y # ys) =
     (if cmp x y \<le> 0 then x # y # ys else y # insert_sorted cmp x ys)"

definition sort_cmp :: "('a \<Rightarrow> 'a \<Rightarrow> int) \<Rightarrow> 'a list \<Rightarrow> 'a list" where
  "sort_cmp cmp xs = foldr (insert_sorted cmp) xs []"

definition collectLuaFiles ::
  "(string \<Rightarrow> string \<Rightarrow> int) \<Rightarrow> (string \<times> string) list \<Rightarrow> (string \<times> string) list" where
  "collectLuaFiles localeCompare source =
     sort_cmp (\<lambda>a b. localeCompare (fst a) (fst b))
       (filter (\<lambda>f. endsWith (fst f) ''.lua'') source)"

text \<open>
  \<^verbatim>\<open>backfillUnknownPlayerNames\<close>: a roster row named \<^verbatim>\<open>Unknown\<close> takes the name of a
  row of the same player that is not; \<^verbatim>\<open>LIMIT 1\<close> is read as the first such row of the
  table.
\<close>

definition backfillUnknownPlayerNames :: "database \<Rightarrow> database" where
  "backfillUnknownPlayerNames db =
     db\<lparr>tbl_game_players :=
          map (\<lambda>r. if gp_name r = ''Unknown'' then
                      (case find (\<lambda>r2. gp_player_id r2 = gp_player_id r \<and> gp_name r2 \<noteq> ''Unknown'')
                              (tbl_game_players db) of
                         None \<Rightarrow> r
                       | Some r2 \<Rightarrow> r\<lparr>gp_name := gp_name r2\<rparr>)
                    else r)
            (tbl_game_players db)\<rparr>"

text \<open>
  The inner \<^verbatim>\<open>try\<close> of the file loop, on the counters \<^verbatim>\<open>ingested\<close> and
  \<^verbatim>\<open>errors\<close> and the tables: an exception of \<^verbatim>\<open>insertGame\<close> is caught and
  counted; the tables stay as \<^verbatim>\<open>insertGame\<close> left them.
\<close>

definition tryInsert :: "game \<Rightarrow> nat \<times> nat \<times> database \<Rightarrow> nat \<times> nat \<times> database" where
  "tryInsert game acc =
     (case acc of (n_ok, n_err, db) \<Rightarrow>
        (case insertGame game db of
           (None, db') \<Rightarrow> (n_ok + 1, n_err, db')
         | (Some e, db') \<Rightarrow> (n_ok, n_err + 1, db')))"

text \<open>
  The file loop, \<open>i\<close> the index of the next file. A file that does not parse is counted
  and the loop continues with the next file, past the end-of-batch check; after every other
  file, the image is saved when \<open>i + 1\<close> is a multiple of the batch size.
\<close>

fun ingestLoop :: "nat \<Rightarrow> (string \<times> string) list \<Rightarrow> nat \<times> nat \<times> store \<Rightarrow> nat \<times> nat \<times> store" where
  "ingestLoop i [] acc = acc"
| "ingestLoop i (file # files) (n_ok, n_err, s) =
     (case parseLuaContent (fst file) (snd file) of
        None \<Rightarrow> ingestLoop (i + 1) files (n_ok, n_err + 1, s)
      | Some game \<Rightarrow>
         (case tryInsert game (n_ok, n_err, st_db s) of
            (n_ok', n_err', db') \<Rightarrow>
              (let s1 = s\<lparr>st_db := db'\<rparr>;
                   s2 = (if (i + 1) mod INGEST_BATCH_SIZE = 0 then saveDatabase s1 else s1)
               in ingestLoop (i + 1) files (n_ok', n_err', s2))))"

definition ingestFiles ::
  "(string \<Rightarrow> string \<Rightarrow> int) \<Rightarrow> (string \<times> string) list \<Rightarrow> store \<Rightarrow> ingest_report \<times> store" where
  "ingestFiles localeCompare source s =
     (let existingFilenames = set (map g_filename (tbl_games (st_db s)));
          luaFiles = collectLuaFiles localeCompare source;
          newFiles = filter (\<lambda>f. fst f \<notin> existingFilenames) luaFiles
      in if newFiles = [] then (\<lparr>ingested = 0, errors = 0, total = length luaFiles\<rparr>, s)
         else
          (case ingestLoop 0 newFiles (0, 0, s) of
             (n_ok, n_err, s1) \<Rightarrow>
               (let s2 = (if 0 < n_ok then s1\<lparr>st_db := backfillUnknownPlayerNames (st_db s1)\<rparr>
                          else s1)
                in (\<lparr>ingested = n_ok, errors = n_err, total = length luaFiles\<rparr>,
                    saveDatabase s2))))"

section \<open>The game query\<close>

record query_params =
  propertyIds :: "string list option"
  resultFilter :: "string option"
  difficulties :: "int list option"
  missions :: "string list option"
  modifiers :: "string list option"
  startTime :: "int option"
  endTime :: "int option"
  lastNGames :: "int option"

record game_result =
  r_id :: nat
  r_timestamp :: int
  r_missionId :: string
  r_missionName :: string
  r_difficulty :: int
  r_modifier :: string
  r_result :: string
  r_durationSeconds :: int
  r_players :: "string \<rightharpoonup> string"
  r_scores :: "string \<rightharpoonup> (string \<rightharpoonup> string)"
  r_quitters :: "string set"

text \<open>The \<^verbatim>\<open>WHERE\<close> clause \<^verbatim>\<open>getGames\<close> builds from the filters that are set.\<close>

definition in_filter :: "'a list option \<Rightarrow> 'a \<Rightarrow> bool" where
  "in_filter f x = (case f of None \<Rightarrow> True | Some xs \<Rightarrow> if xs = [] then True else x \<in> set xs)"

definition result_condition :: "string \<Rightarrow> game_row \<Rightarrow> bool" where
  "result_condition rf g =
     (if rf = ''won'' then g_result g = ''won''
      else if rf = ''won_and_long_lost'' then
        (g_result g = ''won''
         \<or> (g_result g = ''lost'' \<and> LONG_GAME_THRESHOLD_SECONDS < g_duration_seconds g))
      else if rf = ''lost'' then g_result g = ''lost''
      else True)"

definition whereClause :: "query_params \<Rightarrow> game_row \<Rightarrow> bool" where
  "whereClause params g =
     (result_condition (case resultFilter params of None \<Rightarrow> ''all'' | Some rf \<Rightarrow> rf) g
      \<and> in_filter (difficulties params) (g_difficulty g)
      \<and> in_filter (missions params) (g_mission_id g)
      \<and> in_filter (modifiers params) (g_modifier g)
      \<and> (case startTime params of None \<Rightarrow> True | Some t \<Rightarrow> t \<le> g_timestamp g)
      \<and> (case endTime params of None \<Rightarrow> True | Some t \<Rightarrow> g_timestamp g \<le> t))"

text \<open>
  \<^verbatim>\<open>ORDER BY g.timestamp\<close>: SQL leaves the order of rows of equal timestamp open; the
  model keeps them in table order when ascending and in reverse table order when descending.
\<close>

definition order_by_timestamp_asc :: "game_row list \<Rightarrow> game_row list" where
  "order_by_timestamp_asc rows = sort_key g_timestamp rows"

definition order_by_timestamp_desc :: "game_row list \<Rightarrow> game_row list" where
  "order_by_timestamp_desc rows = rev (sort_key g_timestamp rows)"

definition selectGames :: "query_params \<Rightarrow> database \<Rightarrow> game_row list" where
  "selectGames params db =
     (case lastNGames params of
        None \<Rightarrow> order_by_timestamp_asc (filter (whereClause params) (tbl_games db))
      | Some n \<Rightarrow>
         if 0 < n then
           (let idRows = take (nat n)
                           (order_by_timestamp_desc (filter (whereClause params) (tbl_games db)));
                gameIds = map g_id idRows
            in if idRows = [] then []
               else order_by_timestamp_asc (filter (\<lambda>g. g_id g \<in> set gameIds) (tbl_games db)))
         else order_by_timestamp_asc (filter (whereClause params) (tbl_games db)))"

definition addPlayer :: "(nat \<rightharpoonup> (string \<rightharpoonup> string)) \<Rightarrow> game_player_row \<Rightarrow> (nat \<rightharpoonup> (string \<rightharpoonup> string))" where
  "addPlayer playersByGame row =
     (let m = (case playersByGame (gp_game_id row) of None \<Rightarrow> Map.empty | Some m \<Rightarrow> m)
      in playersByGame(gp_game_id row \<mapsto> m(gp_player_id row \<mapsto> gp_name row)))"

definition addQuitter :: "(nat \<rightharpoonup> string set) \<Rightarrow> game_player_row \<Rightarrow> (nat \<rightharpoonup> string set)" where
  "addQuitter quittersByGame row =
     (if gp_quitter row then
        (let q = (case quittersByGame (gp_game_id row) of None \<Rightarrow> {} | Some q \<Rightarrow> q)
         in quittersByGame(gp_game_id row \<mapsto> insert (gp_player_id row) q))
      else quittersByGame)"

definition addScore ::
  "(nat \<rightharpoonup> (string \<rightharpoonup> (string \<rightharpoonup> string))) \<Rightarrow> score_row \<Rightarrow> (nat \<rightharpoonup> (string \<rightharpoonup> (string \<rightharpoonup> string)))" where
  "addScore scoresByGame row =
     (let byPlayer = (case scoresByGame (s_game_id row) of None \<Rightarrow> Map.empty | Some m \<Rightarrow> m);
          byProperty = (case byPlayer (s_player_id row) of None \<Rightarrow> Map.empty | Some m \<Rightarrow> m)
      in scoresByGame(s_game_id row \<mapsto>
           byPlayer(s_player_id row \<mapsto> byProperty(s_property_id row \<mapsto> s_value row))))"

definition getGames :: "query_params \<Rightarrow> database \<Rightarrow> game_result list" where
  "getGames params db =
     (let pids = (case propertyIds params of None \<Rightarrow> [] | Some ps \<Rightarrow> ps)
      in if pids = [] then []
         else
          (let games = selectGames params db
           in if games = [] then []
              else
               (let gameIds = map g_id games;
                    gamePlayers = filter (\<lambda>r. gp_game_id r \<in> set gameIds) (tbl_game_players db);
                    playersByGame = foldl addPlayer Map.empty gamePlayers;
                    quittersByGame = foldl addQuitter Map.empty gamePlayers;
                    scoresRows = filter (\<lambda>r. s_game_id r \<in> set gameIds \<and> s_property_id r \<in> set pids)
                                   (tbl_scores db);
                    scoresByGame = foldl addScore Map.empty scoresRows
                in map (\<lambda>g.
                      \<lparr>r_id = g_id g, r_timestamp = g_timestamp g, r_missionId = g_mission_id g,
                       r_missionName = g_mission_name g, r_difficulty = g_difficulty g,
                       r_modifier = g_modifier g, r_result = g_result g,
                       r_durationSeconds = g_duration_seconds g,
                       r_players = (case playersByGame (g_id g) of None \<Rightarrow> Map.empty | Some m \<Rightarrow> m),
                       r_scores = (case scoresByGame (g_id g) of None \<Rightarrow> Map.empty | Some m \<Rightarrow> m),
                       r_quitters = (case quittersByGame (g_id g) of None \<Rightarrow> {} | Some q \<Rightarrow> q)\<rparr>)
                     games)))"

section \<open>Notions used in the properties\<close>

subsection \<open>The property hierarchy\<close>

text \<open>The parent of a property in a metadata object, and in the draft parsed from a file.\<close>

definition parentOf :: "metadata_obj \<Rightarrow> string \<Rightarrow> string option" where
  "parentOf pm k = (case obj_get pm k of None \<Rightarrow> None | Some m \<Rightarrow> parentId m)"

definition parsedParent :: "string \<Rightarrow> string \<Rightarrow> string \<Rightarrow> string option" where
  "parsedParent name content k =
     (case parseLuaContent name content of
        None \<Rightarrow> None
      | Some game \<Rightarrow> parentOf (propertyMetadata game) k)"

text \<open>
  The ids of the visible properties without parent that carry a plugin id, in the object's
  order.
\<close>

definition pluginCandidates :: "metadata_obj \<Rightarrow> string \<Rightarrow> string list" where
  "pluginCandidates pm pid =
     map fst (filter (\<lambda>e. pluginId (snd e) = pid \<and> visible (snd e) \<and> parentId (snd e) = None) pm)"

text \<open>
  The walk along the parent links from a property ends within \<open>n\<close> steps: it reaches a
  property without parent, or an id that is no property.
\<close>

fun walkUp :: "metadata_obj \<Rightarrow> nat \<Rightarrow> string \<Rightarrow> bool" where
  "walkUp pm 0 x = (parentOf pm x = None)"
| "walkUp pm (Suc n) x = (case parentOf pm x of None \<Rightarrow> True | Some p \<Rightarrow> walkUp pm n p)"




text \<open>A property as a row line with these fields leaves it, for examples.\<close>

definition exampleRow :: "bool \<Rightarrow> string \<Rightarrow> string option \<Rightarrow> string option \<Rightarrow> property_meta" where
  "exampleRow vis plugin parent children =
     \<lparr>displayName = ''n'', groupId = Some DEFAULT_GROUP_ID, groupName = Some DEFAULT_GROUP_NAME,
      sortDirection = ''ASC'', isSummary = False, parentId = parent, childIds = children,
      rowOrder = Some 0, visible = vis, pluginId = plugin\<rparr>"

subsection \<open>The game query\<close>

text \<open>The requested property ids: \<^verbatim>\<open>params.propertyIds || []\<close>.\<close>

definition requested :: "query_params \<Rightarrow> string list" where
  "requested params = (case propertyIds params of None \<Rightarrow> [] | Some ps \<Rightarrow> ps)"

text \<open>
  Every entry of a \<^verbatim>\<open>scoresByGame\<close> map has its property id in \<open>P\<close> and is a row of
  \<open>rows\<close>.
\<close>

definition scores_within :: "string set \<Rightarrow> score_row set \<Rightarrow> (nat \<rightharpoonup> (string \<rightharpoonup> (string \<rightharpoonup> string))) \<Rightarrow> bool" where
  "scores_within P rows sbg =
     (\<forall>gid byPlayer pl byProperty pid v.
        sbg gid = Some byPlayer \<and> byPlayer pl = Some byProperty \<and> byProperty pid = Some v
        \<longrightarrow> pid \<in> P \<and> (\<exists>row\<in>rows. s_game_id row = gid \<and> s_player_id row = pl
                               \<and> s_property_id row = pid \<and> s_value row = v))"

text \<open>The rows the score query of \<^verbatim>\<open>getGames\<close> returns.\<close>

definition selectedScores :: "query_params \<Rightarrow> database \<Rightarrow> score_row list" where
  "selectedScores params db =
     filter (\<lambda>r. s_game_id r \<in> set (map g_id (selectGames params db))
                 \<and> s_property_id r \<in> set (requested params))
       (tbl_scores db)"

text \<open>A small store and query parameters, for examples.\<close>

definition exampleGame :: "nat \<Rightarrow> int \<Rightarrow> string \<Rightarrow> game_row" where
  "exampleGame gid ts res =
     \<lparr>g_id = gid, g_filename = [], g_timestamp = ts, g_mission_id = ''cm_habs'',
      g_mission_name = ''Hab Dreyko'', g_difficulty = 2, g_modifier = [], g_result = res,
      g_duration_seconds = 1500\<rparr>"

definition exampleScore :: "nat \<Rightarrow> string \<Rightarrow> string \<Rightarrow> score_row" where
  "exampleScore gid pid v =
     \<lparr>s_game_id = gid, s_player_id = ''alice'', s_property_id = pid, s_value = v\<rparr>"

definition exampleDb :: database where
  "exampleDb =
     \<lparr>tbl_games = [exampleGame 1 10 ''won'', exampleGame 2 30 ''lost'', exampleGame 3 20 ''won''],
      seq_games = 3,
      tbl_players = [\<lparr>p_id = ''alice'', p_is_bot = False\<rparr>],
      tbl_game_players = [],
      tbl_properties = [],
      tbl_scores = [exampleScore 1 ''dmg'' ''250'', exampleScore 1 ''heal'' ''5'',
                    exampleScore 2 ''dmg'' ''7'', exampleScore 3 ''dmg'' ''100'']\<rparr>"

definition exampleParams :: "string list option \<Rightarrow> int option \<Rightarrow> query_params" where
  "exampleParams pids lastN =
     \<lparr>propertyIds = pids, resultFilter = None, difficulties = None, missions = None,
      modifiers = None, startTime = None, endTime = None, lastNGames = lastN\<rparr>"

subsection \<open>Ingestion\<close>

text \<open>The filenames recorded in the games table.\<close>

definition filenames :: "database \<Rightarrow> string set" where
  "filenames db = set (map g_filename (tbl_games db))"

text \<open>
  A file fails whatever the store holds: it does not parse, or its draft has a difficulty
  or duration that is \<^verbatim>\<open>NaN\<close>, which the first statement of \<^verbatim>\<open>insertGame\<close>
  refuses.
\<close>

definition staticFail :: "string \<times> string \<Rightarrow> bool" where
  "staticFail file =
     (case parseLuaContent (fst file) (snd file) of
        None \<Rightarrow> True
      | Some game \<Rightarrow> difficulty game = None \<or> durationSeconds game = None)"

text \<open>What one turn of the file loop does to the counters and the tables.\<close>

definition ingestFile :: "string \<times> string \<Rightarrow> nat \<times> nat \<times> database \<Rightarrow> nat \<times> nat \<times> database" where
  "ingestFile file acc =
     (case acc of (n_ok, n_err, db) \<Rightarrow>
        (case parseLuaContent (fst file) (snd file) of
           None \<Rightarrow> (n_ok, n_err + 1, db)
         | Some game \<Rightarrow> tryInsert game (n_ok, n_err, db)))"

text \<open>A collation for examples (code unit order) and the store before the first run.\<close>

fun byteCompare :: "string \<Rightarrow> string \<Rightarrow> int" where
  "byteCompare [] [] = 0"
| "byteCompare [] (y # ys) = - 1"
| "byteCompare (x # xs) [] = 1"
| "byteCompare (x # xs) (y # ys) =
     (if (of_char x :: nat) < of_char y then - 1
      else if (of_char y :: nat) < of_char x then 1
      else byteCompare xs ys)"

definition emptyStore :: store where
  "emptyStore = \<lparr>st_db = empty_db, st_saved = None\<rparr>"

section \<open>Synthetic bot identifiers\<close>

text \<open>
  C9. The synthetic id of an AI participant is a function of the raw participant token
  alone: whatever the row, the set of registered players and the match parsed so far, a
  value line whose token is not a UUID and whose value is numeric appends a score under
  \<^const>\<open>generateBotIdentifier\<close> of the token, so two lines with the same token, in any two
  matches, get the same id. The token \<^verbatim>\<open>{#color(1)}Grunt{#reset()} [BOT]\<close> gets
  \<^verbatim>\<open>bot_grunt\<close>.
\<close>

theorem bot_identifier_deterministic:
  assumes "split_on (CHR '';'') line1 = tok # v1 # rest1"
    and "split_on (CHR '';'') line2 = tok # v2 # rest2"
    and "\<not> isUuid tok"
    and "parseFloat v1 = Some val1"
    and "parseFloat v2 = Some val2"
  shows "fst (snd (last (scores (scoreLine row1 known1 game1 line1)))) = generateBotIdentifier tok
       \<and> fst (snd (last (scores (scoreLine row2 known2 game2 line2)))) = generateBotIdentifier tok
       \<and> generateBotIdentifier ''{#color(1)}Grunt{#reset()} [BOT]'' = ''bot_grunt''"
proof -
  have ex: "generateBotIdentifier ''{#color(1)}Grunt{#reset()} [BOT]'' = ''bot_grunt''"
    by code_simp
  have one: "fst (snd (last (scores (scoreLine row known game line)))) = generateBotIdentifier tok"
    if "split_on (CHR '';'') line = tok # v # rest" and "parseFloat v = Some val"
    for row known game line v rest val
    using that assms(3) by (simp add: scoreLine_def numericValue_def Let_def)
  from one [OF assms(1) assms(4)] one [OF assms(2) assms(5)] ex show ?thesis by simp
qed

theorem bot_identifier_deterministic_witness:
  "fst (snd (last (scores (scoreLine ''dmg'' {} (newGame ''1.lua'' 1) ''Grunt [BOT];5''))))
     = ''bot_grunt''
   \<and> fst (snd (last (scores (scoreLine ''heal'' {''x''} (newGame ''2.lua'' 2)
                               ''Grunt [BOT];7.5;z''))))
     = ''bot_grunt''"
proof -
  have a: "split_on (CHR '';'') ''Grunt [BOT];5'' = ''Grunt [BOT]'' # ''5'' # []"
    by code_simp
  have b: "split_on (CHR '';'') ''Grunt [BOT];7.5;z'' = ''Grunt [BOT]'' # ''7.5'' # [''z'']"
    by code_simp
  have c: "\<not> isUuid ''Grunt [BOT]''"
    by code_simp
  have d: "parseFloat ''5'' = Some ''5''"
    by code_simp
  have e: "parseFloat ''7.5'' = Some ''7.5''"
    by code_simp
  have f: "generateBotIdentifier ''Grunt [BOT]'' = ''bot_grunt''"
    by code_simp
  show ?thesis
    using bot_identifier_deterministic [OF a b c d e, of "''dmg''" "{}" "newGame ''1.lua'' 1"
        "''heal''" "{''x''}" "newGame ''2.lua'' 2"] f
    by simp
qed

section \<open>Value lines of a row block\<close>

lemma rowLoop_all_data:
  assumes "lineIndex < length lines"
    and "\<forall>j. lineIndex < j \<and> j \<le> lineIndex + n \<and> j < length lines
           \<longrightarrow> trim (lines ! j) \<noteq> [] \<and> \<not> startsWith (trim (lines ! j)) ''#''"
  shows "fst (rowLoop lines rowId known n lineIndex game) = min (lineIndex + n) (length lines)"
  using assms
proof (induction n arbitrary: lineIndex game)
  case 0
  then show ?case by simp
next
  case (Suc n)
  show ?case
  proof (cases "length lines \<le> lineIndex + 1")
    case True
    with Suc.prems(1) show ?thesis by simp
  next
    case False
    then have lt: "lineIndex + 1 < length lines" by simp
    from Suc.prems(2) lt
    have d: "trim (lines ! (lineIndex + 1)) \<noteq> []
        \<and> \<not> startsWith (trim (lines ! (lineIndex + 1))) ''#''"
      by simp
    have "\<forall>j. lineIndex + 1 < j \<and> j \<le> lineIndex + 1 + n \<and> j < length lines
           \<longrightarrow> trim (lines ! j) \<noteq> [] \<and> \<not> startsWith (trim (lines ! j)) ''#''"
      using Suc.prems(2) by simp
    from Suc.IH [OF lt this]
    have "fst (rowLoop lines rowId known n (lineIndex + 1) g)
        = min (lineIndex + 1 + n) (length lines)" for g
      by simp
    with False d show ?thesis by (simp add: Let_def)
  qed
qed

text \<open>
  C10. In the data-line loop of a \<^verbatim>\<open>#row\<close> block, with \<open>lineIndex\<close> the line before
  the next value line and \<open>n\<close> the lines still to read:
  \<^item> a line that is not empty, does not start with \<^verbatim>\<open>#\<close> and has no numeric value adds
    nothing to the match and uses up one of the declared lines: the loop goes on at the next
    line with one line less to read;
  \<^item> when none of the next \<open>n\<close> lines is empty or starts with \<^verbatim>\<open>#\<close>, the loop ends at
    the last of them (or at the end of the text), whatever their values are: no unparseable
    value makes the parser back up;
  \<^item> an empty line or a line that starts with \<^verbatim>\<open>#\<close> ends the loop with the index
    put back before that line.
\<close>

theorem unparseable_value_consumes_line:
  "(lineIndex + 1 < length lines
      \<and> trim (lines ! (lineIndex + 1)) \<noteq> []
      \<and> \<not> startsWith (trim (lines ! (lineIndex + 1))) ''#''
      \<and> numericValue (split_on (CHR '';'') (trim (lines ! (lineIndex + 1)))) = None
     \<longrightarrow> rowLoop lines rowId known (Suc n) lineIndex game
          = rowLoop lines rowId known n (lineIndex + 1) game)
   \<and> (lineIndex < length lines
      \<and> (\<forall>j. lineIndex < j \<and> j \<le> lineIndex + n \<and> j < length lines
            \<longrightarrow> trim (lines ! j) \<noteq> [] \<and> \<not> startsWith (trim (lines ! j)) ''#'')
     \<longrightarrow> fst (rowLoop lines rowId known n lineIndex game) = min (lineIndex + n) (length lines))
   \<and> (lineIndex + 1 < length lines
      \<and> (trim (lines ! (lineIndex + 1)) = [] \<or> startsWith (trim (lines ! (lineIndex + 1))) ''#'')
     \<longrightarrow> rowLoop lines rowId known (Suc n) lineIndex game = (lineIndex, game))"
proof (intro conjI impI)
  assume "lineIndex + 1 < length lines
      \<and> trim (lines ! (lineIndex + 1)) \<noteq> []
      \<and> \<not> startsWith (trim (lines ! (lineIndex + 1))) ''#''
      \<and> numericValue (split_on (CHR '';'') (trim (lines ! (lineIndex + 1)))) = None"
  then show "rowLoop lines rowId known (Suc n) lineIndex game
          = rowLoop lines rowId known n (lineIndex + 1) game"
    by (simp add: Let_def scoreLine_def)
next
  assume "lineIndex < length lines
      \<and> (\<forall>j. lineIndex < j \<and> j \<le> lineIndex + n \<and> j < length lines
            \<longrightarrow> trim (lines ! j) \<noteq> [] \<and> \<not> startsWith (trim (lines ! j)) ''#'')"
  then show "fst (rowLoop lines rowId known n lineIndex game) = min (lineIndex + n) (length lines)"
    using rowLoop_all_data by blast
next
  assume "lineIndex + 1 < length lines
      \<and> (trim (lines ! (lineIndex + 1)) = [] \<or> startsWith (trim (lines ! (lineIndex + 1))) ''#'')"
  then show "rowLoop lines rowId known (Suc n) lineIndex game = (lineIndex, game)"
    by (auto simp: Let_def)
qed

theorem unparseable_value_consumes_line_witness:
  "rowLoop [''#row;a;0;2'', ''Bot;x'', ''Bot;5''] ''a'' {} (Suc 1) 0 (newGame ''1.lua'' 1)
     = rowLoop [''#row;a;0;2'', ''Bot;x'', ''Bot;5''] ''a'' {} 1 (0 + 1) (newGame ''1.lua'' 1)
   \<and> fst (rowLoop [''#row;a;0;2'', ''Bot;x'', ''Bot;5''] ''a'' {} 2 0 (newGame ''1.lua'' 1)) = 2
   \<and> rowLoop [''#row;a;0;2'', ''Bot;x'', ''#row;b''] ''a'' {} (Suc 0) 1 (newGame ''1.lua'' 1)
     = (1, newGame ''1.lua'' 1)"
proof -
  let ?ls = "[''#row;a;0;2'', ''Bot;x'', ''Bot;5'']"
  let ?ls2 = "[''#row;a;0;2'', ''Bot;x'', ''#row;b'']"
  let ?g = "newGame ''1.lua'' 1"
  have t1: "trim (?ls ! 1) = ''Bot;x''" by code_simp
  have t2: "trim (?ls ! 2) = ''Bot;5''" by code_simp
  have t3: "trim (?ls2 ! 2) = ''#row;b''" by code_simp
  have s1: "\<not> startsWith ''Bot;x'' ''#''" by code_simp
  have s2: "\<not> startsWith ''Bot;5'' ''#''" by code_simp
  have s3: "startsWith ''#row;b'' ''#''" by code_simp
  have nv: "numericValue (split_on (CHR '';'') ''Bot;x'') = None" by code_simp
  have h1: "(0::nat) + 1 < length ?ls
      \<and> trim (?ls ! (0 + 1)) \<noteq> []
      \<and> \<not> startsWith (trim (?ls ! (0 + 1))) ''#''
      \<and> numericValue (split_on (CHR '';'') (trim (?ls ! (0 + 1)))) = None"
    using t1 s1 nv by simp
  have h2: "(0::nat) < length ?ls
      \<and> (\<forall>j. 0 < j \<and> j \<le> 0 + 2 \<and> j < length ?ls
            \<longrightarrow> trim (?ls ! j) \<noteq> [] \<and> \<not> startsWith (trim (?ls ! j)) ''#'')"
  proof (intro conjI allI impI)
    show "(0::nat) < length ?ls" by simp
  next
    fix j :: nat
    assume "0 < j \<and> j \<le> 0 + 2 \<and> j < length ?ls"
    then have "j = 1 \<or> j = 2" by auto
    then show "trim (?ls ! j) \<noteq> []" using t1 t2 by auto
  next
    fix j :: nat
    assume "0 < j \<and> j \<le> 0 + 2 \<and> j < length ?ls"
    then have "j = 1 \<or> j = 2" by auto
    then show "\<not> startsWith (trim (?ls ! j)) ''#''" using t1 t2 s1 s2 by auto
  qed
  have h3: "(1::nat) + 1 < length ?ls2
      \<and> (trim (?ls2 ! (1 + 1)) = [] \<or> startsWith (trim (?ls2 ! (1 + 1))) ''#'')"
    using t3 s3 by simp
  from unparseable_value_consumes_line [of 0 ?ls "''a''" "{}" 1 ?g] h1
  have a: "rowLoop ?ls ''a'' {} (Suc 1) 0 ?g = rowLoop ?ls ''a'' {} 1 (0 + 1) ?g"
    by blast
  from unparseable_value_consumes_line [of 0 ?ls "''a''" "{}" 2 ?g] h2
  have b: "fst (rowLoop ?ls ''a'' {} 2 0 ?g) = min (0 + 2) (length ?ls)"
    by blast
  from unparseable_value_consumes_line [of 1 ?ls2 "''a''" "{}" 0 ?g] h3
  have c: "rowLoop ?ls2 ''a'' {} (Suc 0) 1 ?g = (1, ?g)"
    by blast
  from a b c show ?thesis by simp
qed

section \<open>The filename as timestamp\<close>
















section \<open>The property hierarchy\<close>

subsection \<open>Objects\<close>

lemma obj_keys_update [simp]: "obj_keys (obj_update obj k f) = obj_keys obj"
  by (induction obj) (auto simp: obj_keys_def obj_update_def)

lemma obj_get_update:
  "obj_get (obj_update obj k f) k' = (if k' = k then map_option f (obj_get obj k) else obj_get obj k')"
  by (induction obj) (auto simp: obj_get_def obj_update_def)

lemma set_keys_insert: "set (obj_keys (obj_insert obj k v)) = insert k (set (obj_keys obj))"
  by (induction obj k v rule: obj_insert.induct) (auto simp: obj_keys_def)

lemma distinct_insert:
  "k \<notin> set (obj_keys obj) \<Longrightarrow> distinct (obj_keys obj) \<Longrightarrow> distinct (obj_keys (obj_insert obj k v))"
proof (induction obj k v rule: obj_insert.induct)
  case (1 k v)
  then show ?case by (simp add: obj_keys_def)
next
  case (2 k' v' rest k v)
  have "set (obj_keys (obj_insert rest k v)) = insert k (set (obj_keys rest))"
    by (rule set_keys_insert)
  with 2 show ?case by (auto simp: obj_keys_def)
qed




lemma distinct_obj_set: "distinct (obj_keys obj) \<Longrightarrow> distinct (obj_keys (obj_set obj k v))"
  by (simp add: obj_set_def distinct_insert)

lemma set_keys_obj_set: "set (obj_keys (obj_set obj k v)) = insert k (set (obj_keys obj))"
  by (auto simp: obj_set_def set_keys_insert)


subsection \<open>The plugin fallback\<close>

lemma pluginCandidates_Cons:
  "pluginCandidates ((r, m) # pm) pid
     = (if pluginId m = pid \<and> visible m \<and> parentId m = None then r # pluginCandidates pm pid
        else pluginCandidates pm pid)"
  by (simp add: pluginCandidates_def)

lemma pluginParents_fold:
  "foldl (\<lambda>pp (rowId, metadata).
              if pluginId metadata \<noteq> [] \<and> visible metadata \<and> parentId metadata = None
              then pp(pluginId metadata \<mapsto> rowId) else pp) pp0 pm pid
   = (if pid \<noteq> [] \<and> pluginCandidates pm pid \<noteq> [] then Some (last (pluginCandidates pm pid)) else pp0 pid)"
proof (induction pm arbitrary: pp0)
  case Nil
  show ?case by (simp add: pluginCandidates_def)
next
  case (Cons e pm)
  obtain r m where e: "e = (r, m)" by (cases e)
  show ?case
  proof (cases "pluginId m \<noteq> [] \<and> visible m \<and> parentId m = None")
    case True
    then show ?thesis
      unfolding e by (simp add: Cons.IH pluginCandidates_Cons)
  next
    case False
    then show ?thesis
      unfolding e by (auto simp add: Cons.IH pluginCandidates_Cons)
  qed
qed

lemma pluginParents_eq:
  "pluginParents pm pid
     = (if pid \<noteq> [] \<and> pluginCandidates pm pid \<noteq> [] then Some (last (pluginCandidates pm pid)) else None)"
  unfolding pluginParents_def by (simp add: pluginParents_fold)

lemma map_of_map_keep:
  assumes "\<And>e. fst (f e) = fst e"
  shows "map_of (map f xs) k = map_option (\<lambda>v. snd (f (k, v))) (map_of xs k)"
proof (induction xs)
  case Nil
  show ?case by simp
next
  case (Cons e xs)
  obtain a b where e: "e = (a, b)" by (cases e)
  have "f (a, b) = (a, snd (f (a, b)))"
    using assms [of "(a, b)"] by (metis fst_conv prod.collapse)
  then have "map_of (f (a, b) # map f xs) k = (if k = a then Some (snd (f (a, b))) else map_of (map f xs) k)"
    by (metis map_of_Cons_code(2))
  with Cons show ?case by (simp add: e)
qed

lemma fst_attachToPlugin: "fst (attachToPlugin pp e) = fst e"
  by (cases e) (simp add: attachToPlugin_def)

lemma obj_get_linkByPlugin:
  "obj_get (linkByPlugin pm) k = map_option (\<lambda>m. snd (attachToPlugin (pluginParents pm) (k, m))) (obj_get pm k)"
  unfolding linkByPlugin_def obj_get_def
  by (rule map_of_map_keep) (rule fst_attachToPlugin)

lemma pluginCandidates_mem:
  "r \<in> set (pluginCandidates pm pid) \<Longrightarrow> \<exists>m. (r, m) \<in> set pm \<and> pluginId m = pid \<and> visible m \<and> parentId m = None"
  by (auto simp: pluginCandidates_def)

lemma obj_get_distinct: "distinct (obj_keys pm) \<Longrightarrow> (r, m) \<in> set pm \<Longrightarrow> obj_get pm r = Some m"
  by (simp add: obj_get_def obj_keys_def)



subsection \<open>Cycles\<close>

lemma walkUp_cong: "(\<And>y. parentOf pm' y = parentOf pm y) \<Longrightarrow> walkUp pm' n x = walkUp pm n x"
  by (induction n arbitrary: x) (simp_all split: option.splits)

lemma parentOf_linkByPlugin_keep:
  "parentOf pm x \<noteq> None \<Longrightarrow> parentOf (linkByPlugin pm) x = parentOf pm x"
  by (cases "obj_get pm x") (auto simp: parentOf_def obj_get_linkByPlugin attachToPlugin_def)

lemma parentOf_linkByPlugin_root:
  assumes "distinct (obj_keys pm)" and "parentOf pm x = None"
    and "parentOf (linkByPlugin pm) x = Some p"
  shows "parentOf (linkByPlugin pm) p = None"
proof -
  from assms(3) obtain m where m: "obj_get pm x = Some m"
    by (cases "obj_get pm x") (auto simp: parentOf_def obj_get_linkByPlugin)
  with assms(2) have pn: "parentId m = None" by (simp add: parentOf_def)
  from assms(3) m pn have pp: "pluginParents pm (pluginId m) = Some p"
    by (auto simp: parentOf_def obj_get_linkByPlugin attachToPlugin_def split: if_splits)
  then have "p \<in> set (pluginCandidates pm (pluginId m))"
    by (auto simp: pluginParents_eq split: if_splits)
  then obtain mp where mp: "(p, mp) \<in> set pm" "visible mp" "parentId mp = None"
    using pluginCandidates_mem by blast
  from obj_get_distinct [OF assms(1) mp(1)] mp(2,3) show ?thesis
    by (simp add: parentOf_def obj_get_linkByPlugin attachToPlugin_def)
qed

lemma walkUp_linkByPlugin:
  assumes "distinct (obj_keys pm)"
  shows "walkUp pm n x \<Longrightarrow> walkUp (linkByPlugin pm) (Suc n) x"
proof (induction n arbitrary: x)
  case 0
  then have r: "parentOf pm x = None" by simp
  show ?case
  proof (cases "parentOf (linkByPlugin pm) x")
    case None
    then show ?thesis by simp
  next
    case (Some p)
    from parentOf_linkByPlugin_root [OF assms r Some] Some show ?thesis by simp
  qed
next
  case (Suc n)
  show ?case
  proof (cases "parentOf pm x")
    case None
    show ?thesis
    proof (cases "parentOf (linkByPlugin pm) x")
      case None
      then show ?thesis by simp
    next
      case (Some p)
      from parentOf_linkByPlugin_root [OF assms \<open>parentOf pm x = None\<close> Some] Some
      show ?thesis by (cases n) simp_all
    qed
  next
    case (Some y)
    with Suc.prems have "walkUp pm n y" by simp
    from Suc.IH [OF this] parentOf_linkByPlugin_keep [of pm x] Some
    show ?thesis by simp
  qed
qed

lemma obj_keys_assignParent: "obj_keys (assignParent pm e) = obj_keys pm"
  by (cases e) (simp add: assignParent_def split: list.splits)

lemma obj_keys_linkByChildLists: "obj_keys (linkByChildLists pm) = obj_keys pm"
proof -
  have "obj_keys (foldl assignParent pm cs) = obj_keys pm" for cs
    by (induction cs arbitrary: pm) (simp_all add: obj_keys_assignParent)
  then show ?thesis by (simp add: linkByChildLists_def)
qed

lemma parentOf_update_name:
  "parentOf (obj_update pm k (\<lambda>m. m\<lparr>displayName := f m\<rparr>)) x = parentOf pm x"
  by (cases "obj_get pm k") (auto simp: parentOf_def obj_get_update)

lemma parentOf_expandOne: "parentOf (expandOne raw pm k) x = parentOf pm x"
  by (simp add: expandOne_def Let_def parentOf_update_name split: option.splits)

lemma parentOf_expandChildDisplayNames:
  "parentOf (propertyMetadata (expandChildDisplayNames game)) x = parentOf (propertyMetadata game) x"
proof -
  have "parentOf (foldl (expandOne raw) pm ks) x = parentOf pm x" for raw pm ks
    by (induction ks arbitrary: pm) (simp_all add: parentOf_expandOne)
  then show ?thesis by (simp add: expandChildDisplayNames_def Let_def)
qed

text \<open>
  C3, as the code has it. Raw \<^verbatim>\<open>parentId\<close> fields are stored as they are read and
  the orphan-linking step looks for no cycle, so the parent links of a draft can contain
  one. What holds is that the two later passes add none. For every draft (an object has
  each key once):
  \<^item> if every walk along the parent links ends after the orphan-linking step, every walk
    ends in the final draft;
  \<^item> a property that has no parent after the orphan-linking step and has one in the final
    draft has a parent that has none: the plugin fallback attaches to roots only, and the
    display-name expansion changes no link.
\<close>

theorem later_passes_add_no_cycle:
  assumes "distinct (obj_keys (propertyMetadata game))"
  shows "((\<forall>x. \<exists>n. walkUp (linkByChildLists (propertyMetadata game)) n x)
           \<longrightarrow> (\<forall>x. \<exists>n. walkUp (propertyMetadata
                               (expandChildDisplayNames (linkOrphanedChildren game))) n x))
       \<and> (\<forall>x p. parentOf (linkByChildLists (propertyMetadata game)) x = None
             \<and> parentOf (propertyMetadata
                   (expandChildDisplayNames (linkOrphanedChildren game))) x = Some p
           \<longrightarrow> parentOf (propertyMetadata
                   (expandChildDisplayNames (linkOrphanedChildren game))) p = None)"
proof -
  let ?pm1 = "linkByChildLists (propertyMetadata game)"
  let ?pm3 = "propertyMetadata (expandChildDisplayNames (linkOrphanedChildren game))"
  have d: "distinct (obj_keys ?pm1)"
    using assms by (simp add: obj_keys_linkByChildLists)
  have eq: "parentOf ?pm3 y = parentOf (linkByPlugin ?pm1) y" for y
    by (simp add: parentOf_expandChildDisplayNames linkOrphanedChildren_def)
  have a: "\<exists>n. walkUp ?pm3 n x" if "\<forall>x. \<exists>n. walkUp ?pm1 n x" for x
  proof -
    from that obtain n where "walkUp ?pm1 n x" by blast
    from walkUp_linkByPlugin [OF d this] have "walkUp (linkByPlugin ?pm1) (Suc n) x" .
    moreover have "walkUp ?pm3 (Suc n) x = walkUp (linkByPlugin ?pm1) (Suc n) x"
      by (rule walkUp_cong) (rule eq)
    ultimately have "walkUp ?pm3 (Suc n) x" by blast
    then show ?thesis by blast
  qed
  have b: "parentOf ?pm3 p = None"
    if "parentOf ?pm1 x = None" and "parentOf ?pm3 x = Some p" for x p
    using parentOf_linkByPlugin_root [OF d that(1)] that(2) by (simp add: eq)
  from a b show ?thesis by blast
qed

theorem later_passes_add_no_cycle_witness:
  "(\<forall>x. \<exists>n. walkUp (propertyMetadata (expandChildDisplayNames (linkOrphanedChildren
        (newGame ''1.lua'' 1\<lparr>propertyMetadata :=
           [(''p'', exampleRow True ''pl'' None None),
            (''h'', exampleRow False ''pl'' None None)]\<rparr>)))) n x)
   \<and> parentOf (propertyMetadata (expandChildDisplayNames (linkOrphanedChildren
        (newGame ''1.lua'' 1\<lparr>propertyMetadata :=
           [(''p'', exampleRow True ''pl'' None None),
            (''h'', exampleRow False ''pl'' None None)]\<rparr>)))) ''h'' = Some ''p''
   \<and> parentOf (propertyMetadata (expandChildDisplayNames (linkOrphanedChildren
        (newGame ''1.lua'' 1\<lparr>propertyMetadata :=
           [(''p'', exampleRow True ''pl'' None None),
            (''h'', exampleRow False ''pl'' None None)]\<rparr>)))) ''p'' = None"
proof -
  let ?pm = "[(''p'', exampleRow True ''pl'' None None), (''h'', exampleRow False ''pl'' None None)]"
  let ?g = "newGame ''1.lua'' 1\<lparr>propertyMetadata := ?pm\<rparr>"
  let ?final = "propertyMetadata (expandChildDisplayNames (linkOrphanedChildren ?g))"
  have pm: "propertyMetadata ?g = ?pm" by simp
  have d: "distinct (obj_keys (propertyMetadata ?g))"
    by (simp add: obj_keys_def)
  have l: "linkByChildLists ?pm = ?pm"
    by code_simp
  have r: "parentOf ?pm x = None" for x
    by (simp add: parentOf_def obj_get_def exampleRow_def)
  have "walkUp (linkByChildLists (propertyMetadata ?g)) 0 x" for x
    unfolding pm l by (simp add: r)
  then have hyp: "\<forall>x. \<exists>n. walkUp (linkByChildLists (propertyMetadata ?g)) n x"
    by blast
  have h: "parentOf ?final ''h'' = Some ''p''"
    by code_simp
  have hn: "parentOf (linkByChildLists (propertyMetadata ?g)) ''h'' = None"
    unfolding pm l by (rule r)
  from later_passes_add_no_cycle [OF d] hyp
  have a: "\<forall>x. \<exists>n. walkUp ?final n x" by blast
  from later_passes_add_no_cycle [OF d] hn h
  have b: "parentOf ?final ''p'' = None" by blast
  from a h b show ?thesis by blast
qed

text \<open>
  The claim as the specification states it fails: a row that names itself in its raw
  parent field is its own parent in the parsed draft.
\<close>

theorem self_parent_survives:
  "parsedParent ''1.lua'' ''#row;a;0;0;n;ASC;;;;;a'' ''a'' = Some ''a''"
  by code_simp

subsection \<open>Orphan linking\<close>


















subsection \<open>Every draft holds each property id once\<close>

text \<open>
  The metadata object of a parsed draft has distinct keys, before and after the hierarchy
  post-pass: the hypothesis of the theorems above on the object holds for every draft.
\<close>

lemma pm_parseMissionLine: "propertyMetadata (parseMissionLine line g) = propertyMetadata g"
  by (simp add: parseMissionLine_def Let_def)

lemma pm_playersLoop: "propertyMetadata (fst (snd (playersLoop lines n li g k))) = propertyMetadata g"
  by (induction n arbitrary: li g k) (simp_all add: Let_def)

lemma pm_scoreLine: "propertyMetadata (scoreLine rowId k g dl) = propertyMetadata g"
  by (simp add: scoreLine_def Let_def split: option.splits)

lemma pm_rowLoop: "propertyMetadata (snd (rowLoop lines rowId k n li g)) = propertyMetadata g"
  by (induction n arbitrary: li g) (simp_all add: Let_def pm_scoreLine)

lemma keys_parseRowSection:
  "distinct (obj_keys (propertyMetadata g))
     \<Longrightarrow> distinct (obj_keys (propertyMetadata (snd (parseRowSection lines li l g k gi gn))))"
  by (simp add: parseRowSection_def Let_def pm_rowLoop distinct_obj_set)

lemma keys_parseStep:
  assumes "distinct (obj_keys (propertyMetadata (ps_game st)))"
  shows "distinct (obj_keys (propertyMetadata (ps_game (snd (parseStep lines li st)))))"
proof -
  have p: "propertyMetadata (fst (snd (parsePlayersSection lines li g k))) = propertyMetadata g" for g k
    by (simp add: parsePlayersSection_def Let_def pm_playersLoop)
  show ?thesis
    using assms p [of "ps_game st" "ps_known st"]
      keys_parseRowSection [of "ps_game st" lines li "trim (lines ! li)" "ps_known st"
        "ps_groupId st" "ps_groupName st"]
    by (auto simp: parseStep_def Let_def pm_parseMissionLine split: prod.splits)
qed

lemma keys_parseLines:
  "distinct (obj_keys (propertyMetadata (ps_game st)))
     \<Longrightarrow> distinct (obj_keys (propertyMetadata (ps_game (parseLines lines li st))))"
proof (induction lines li st rule: parseLines.induct)
  case (1 lines lineIndex st)
  show ?case
  proof (cases "lineIndex < length lines")
    case True
    obtain li' st' where s: "parseStep lines lineIndex st = (li', st')"
      by (cases "parseStep lines lineIndex st")
    from keys_parseStep [OF "1.prems", of lines lineIndex] s
    have "distinct (obj_keys (propertyMetadata (ps_game st')))" by simp
    from "1.IH" [OF True s [symmetric] this] True s show ?thesis
      by (simp add: parseLines.simps [of lines lineIndex st])
  next
    case False
    with "1.prems" show ?thesis by (simp add: parseLines.simps [of lines lineIndex st])
  qed
qed

lemma obj_keys_linkByPlugin: "obj_keys (linkByPlugin pm) = obj_keys pm"
  by (simp add: linkByPlugin_def obj_keys_def comp_def fst_attachToPlugin)

lemma obj_keys_expandOne: "obj_keys (expandOne raw pm k) = obj_keys pm"
  by (simp add: expandOne_def Let_def split: option.splits)

lemma obj_keys_expand: "obj_keys (propertyMetadata (expandChildDisplayNames g)) = obj_keys (propertyMetadata g)"
proof -
  have "obj_keys (foldl (expandOne raw) pm ks) = obj_keys pm" for raw pm ks
    by (induction ks arbitrary: pm) (simp_all add: obj_keys_expandOne)
  then show ?thesis by (simp add: expandChildDisplayNames_def Let_def)
qed

lemma parsed_keys_distinct:
  "parseLuaContent name content = Some g \<Longrightarrow> distinct (obj_keys (propertyMetadata g))"
proof -
  assume "parseLuaContent name content = Some g"
  then obtain ts lines st where g: "g = expandChildDisplayNames (linkOrphanedChildren (ps_game st))"
    and st: "st = parseLines lines 0 \<lparr>ps_game = newGame name ts, ps_known = {},
               ps_groupId = Some DEFAULT_GROUP_ID, ps_groupName = Some DEFAULT_GROUP_NAME\<rparr>"
    by (auto simp: parseLuaContent_def Let_def split: option.splits)
  have "distinct (obj_keys (propertyMetadata (ps_game st)))"
    unfolding st by (rule keys_parseLines) (simp add: newGame_def obj_keys_def)
  then show ?thesis
    by (simp add: g obj_keys_expand linkOrphanedChildren_def obj_keys_linkByPlugin
        obj_keys_linkByChildLists)
qed

section \<open>Properties of the game query\<close>

lemma scores_within_addScore:
  assumes "scores_within P rows sbg" and "s_property_id row \<in> P" and "row \<in> rows"
  shows "scores_within P rows (addScore sbg row)"
  unfolding scores_within_def
proof (intro allI impI)
  fix gid byPlayer pl byProperty pid v
  assume a: "addScore sbg row gid = Some byPlayer \<and> byPlayer pl = Some byProperty \<and> byProperty pid = Some v"
  show "pid \<in> P \<and> (\<exists>row\<in>rows. s_game_id row = gid \<and> s_player_id row = pl
                               \<and> s_property_id row = pid \<and> s_value row = v)"
  proof (cases "gid = s_game_id row \<and> pl = s_player_id row \<and> pid = s_property_id row")
    case True
    with a have "v = s_value row"
      by (auto simp: addScore_def Let_def)
    with True assms(2,3) show ?thesis by auto
  next
    case False
    with a have "\<exists>bp bpr. sbg gid = Some bp \<and> bp pl = Some bpr \<and> bpr pid = Some v"
      by (auto simp: addScore_def Let_def split: if_splits option.splits)
    with assms(1) show ?thesis unfolding scores_within_def by blast
  qed
qed

lemma scores_within_fold:
  assumes "scores_within P rows sbg" and "\<forall>row\<in>set rs. s_property_id row \<in> P \<and> row \<in> rows"
  shows "scores_within P rows (foldl addScore sbg rs)"
  using assms
  by (induction rs arbitrary: sbg) (simp_all add: scores_within_addScore)

lemma getGames_fields:
  "map (\<lambda>g. (r_id g, r_timestamp g, r_scores g)) (getGames params db)
     = (if requested params = [] then []
        else map (\<lambda>gr. (g_id gr, g_timestamp gr,
                     case foldl addScore Map.empty (selectedScores params db) (g_id gr) of
                       None \<Rightarrow> Map.empty | Some m \<Rightarrow> m))
               (selectGames params db))"
  by (simp add: getGames_def Let_def requested_def selectedScores_def comp_def)

lemma getGames_mem:
  assumes "g \<in> set (getGames params db)"
  shows "\<exists>gr\<in>set (selectGames params db). r_id g = g_id gr \<and> r_timestamp g = g_timestamp gr
           \<and> r_scores g = (case foldl addScore Map.empty (selectedScores params db) (g_id gr) of
                             None \<Rightarrow> Map.empty | Some m \<Rightarrow> m)"
proof -
  from assms have "(r_id g, r_timestamp g, r_scores g)
      \<in> set (map (\<lambda>g. (r_id g, r_timestamp g, r_scores g)) (getGames params db))"
    by (metis (no_types, lifting) image_eqI list.set_map)
  then show ?thesis
    unfolding getGames_fields by (auto split: if_splits)
qed

text \<open>
  C7. For every query and store, \<^verbatim>\<open>getGames\<close> with no requested property id returns
  the empty list; and every score entry of every returned game, under any player, has a
  requested property id and is the value of a row of the scores table for that game, player
  and property.
\<close>

theorem getGames_scores_within_requested:
  "(requested params = [] \<longrightarrow> getGames params db = [])
   \<and> (\<forall>g\<in>set (getGames params db). \<forall>pl byProperty pid v.
         r_scores g pl = Some byProperty \<and> byProperty pid = Some v
         \<longrightarrow> pid \<in> set (requested params)
             \<and> (\<exists>row\<in>set (tbl_scores db). s_game_id row = r_id g \<and> s_player_id row = pl
                    \<and> s_property_id row = pid \<and> s_value row = v))"
proof (rule conjI)
  show "requested params = [] \<longrightarrow> getGames params db = []"
    by (simp add: getGames_def requested_def)
next
  show "\<forall>g\<in>set (getGames params db). \<forall>pl byProperty pid v.
         r_scores g pl = Some byProperty \<and> byProperty pid = Some v
         \<longrightarrow> pid \<in> set (requested params)
             \<and> (\<exists>row\<in>set (tbl_scores db). s_game_id row = r_id g \<and> s_player_id row = pl
                    \<and> s_property_id row = pid \<and> s_value row = v)"
  proof (intro ballI allI impI)
  fix g pl byProperty pid v
  assume g: "g \<in> set (getGames params db)"
    and s: "r_scores g pl = Some byProperty \<and> byProperty pid = Some v"
  let ?sbg = "foldl addScore Map.empty (selectedScores params db)"
  have w: "scores_within (set (requested params)) (set (tbl_scores db)) ?sbg"
    by (rule scores_within_fold) (simp_all add: scores_within_def selectedScores_def)
  from getGames_mem [OF g] obtain gr :: game_row where gr: "r_id g = g_id gr"
    "r_scores g = (case ?sbg (g_id gr) of None \<Rightarrow> Map.empty | Some m \<Rightarrow> m)"
    by blast
  from gr(2) s obtain byPlayer where "?sbg (g_id gr) = Some byPlayer" "byPlayer pl = Some byProperty"
    by (cases "?sbg (g_id gr)") auto
  with w s gr(1) show "pid \<in> set (requested params)
             \<and> (\<exists>row\<in>set (tbl_scores db). s_game_id row = r_id g \<and> s_player_id row = pl
                    \<and> s_property_id row = pid \<and> s_value row = v)"
    unfolding scores_within_def by metis
  qed
qed

theorem getGames_scores_within_requested_witness:
  "getGames (exampleParams None None) exampleDb = []
   \<and> (case r_scores (hd (getGames (exampleParams (Some [''dmg'']) None) exampleDb)) ''alice'' of
         None \<Rightarrow> False
       | Some byProperty \<Rightarrow> byProperty ''dmg'' = Some ''250'' \<and> byProperty ''heal'' = None)"
proof -
  let ?p = "exampleParams (Some [''dmg'']) None"
  let ?G = "getGames ?p exampleDb"
  have r0: "requested (exampleParams None None) = []"
    by (simp add: requested_def exampleParams_def)
  have r1: "requested ?p = [''dmg'']"
    by (simp add: requested_def exampleParams_def)
  from getGames_scores_within_requested [of "exampleParams None None" exampleDb] r0
  have e: "getGames (exampleParams None None) exampleDb = []" by blast
  have "length ?G = 3" by code_simp
  then have m: "hd ?G \<in> set ?G" by (cases ?G) auto
  have v: "(case r_scores (hd ?G) ''alice'' of
           None \<Rightarrow> False | Some bp \<Rightarrow> bp ''dmg'' = Some ''250'')"
    by code_simp
  then obtain bp where bp: "r_scores (hd ?G) ''alice'' = Some bp" "bp ''dmg'' = Some ''250''"
    by (cases "r_scores (hd ?G) ''alice''") auto
  have "bp ''heal'' = None"
  proof (cases "bp ''heal''")
    case None
    then show ?thesis .
  next
    case (Some v)
    with getGames_scores_within_requested [of ?p exampleDb] m bp(1) have "''heal'' \<in> set (requested ?p)" by blast
    with r1 show ?thesis by simp
  qed
  with e bp show ?thesis by simp
qed







section \<open>Properties of ingestion\<close>

lemma filename_parseMissionLine: "filename (parseMissionLine line g) = filename g"
  by (simp add: parseMissionLine_def Let_def)

lemma filename_playersLoop: "filename (fst (snd (playersLoop lines n li g k))) = filename g"
  by (induction n arbitrary: li g k) (simp_all add: Let_def)

lemma filename_scoreLine: "filename (scoreLine rowId k g dl) = filename g"
  by (simp add: scoreLine_def Let_def split: option.splits)

lemma filename_rowLoop: "filename (snd (rowLoop lines rowId k n li g)) = filename g"
  by (induction n arbitrary: li g) (simp_all add: Let_def filename_scoreLine)

lemma filename_parseStep: "filename (ps_game (snd (parseStep lines li st))) = filename (ps_game st)"
proof -
  have p: "filename (fst (snd (parsePlayersSection lines li g k))) = filename g" for g k
    by (simp add: parsePlayersSection_def Let_def filename_playersLoop)
  have r: "filename (snd (parseRowSection lines li l g k gi gn)) = filename g" for l g k gi gn
    by (simp add: parseRowSection_def Let_def filename_rowLoop)
  show ?thesis
    using p [of "ps_game st" "ps_known st"]
      r [of "trim (lines ! li)" "ps_game st" "ps_known st" "ps_groupId st" "ps_groupName st"]
    by (auto simp: parseStep_def Let_def filename_parseMissionLine split: prod.splits)
qed

lemma filename_parseLines: "filename (ps_game (parseLines lines li st)) = filename (ps_game st)"
proof (induction lines li st rule: parseLines.induct)
  case (1 lines lineIndex st)
  show ?case
  proof (cases "lineIndex < length lines")
    case True
    obtain li' st' where s: "parseStep lines lineIndex st = (li', st')"
      by (cases "parseStep lines lineIndex st")
    from filename_parseStep [of lines lineIndex st] s
    have "filename (ps_game st') = filename (ps_game st)" by simp
    with 1 [OF True s [symmetric]] True s show ?thesis
      by (simp add: parseLines.simps [of lines lineIndex st])
  next
    case False
    then show ?thesis by (simp add: parseLines.simps [of lines lineIndex st])
  qed
qed

lemma filename_parseLuaContent: "parseLuaContent name content = Some g \<Longrightarrow> filename g = name"
  by (auto simp: parseLuaContent_def Let_def expandChildDisplayNames_def linkOrphanedChildren_def
      filename_parseLines newGame_def split: option.splits)

text \<open>Only the first statement of \<^verbatim>\<open>insertGame\<close> writes the games table.\<close>

lemma games_players_fold: "tbl_games (foldl insert_or_ignore_player db rows) = tbl_games db"
  by (induction rows arbitrary: db) (simp_all add: insert_or_ignore_player_def split: prod.splits)

lemma games_game_players_fold: "tbl_games (foldl insert_or_ignore_game_player db rows) = tbl_games db"
  by (induction rows arbitrary: db)
     (simp_all add: insert_or_ignore_game_player_def split: prod.splits option.splits)

lemma games_properties: "insert_or_replace_properties db es = Inr db' \<Longrightarrow> tbl_games db' = tbl_games db"
  by (auto simp: insert_or_replace_properties_def split: if_splits)

lemma games_scores_fold: "tbl_games (foldl (insert_or_ignore_score gid) db rows) = tbl_games db"
  by (induction rows arbitrary: db) (simp_all add: insert_or_ignore_score_def split: prod.splits)

lemma games_insertScoreBatches: "tbl_games (insertScoreBatches gid rows db) = tbl_games db"
proof (induction gid rows db rule: insertScoreBatches.induct)
  case (1 gameId rows db)
  show ?case
  proof (cases "rows = []")
    case True
    then show ?thesis by (subst insertScoreBatches.simps) simp
  next
    case False
    with 1 [OF False] show ?thesis
      by (subst insertScoreBatches.simps) (simp add: games_scores_fold)
  qed
qed

lemma insert_game_row_ok:
  "insert_game_row db game mn = Inr (gid, db1) \<Longrightarrow>
     set (map g_filename (tbl_games db1)) = insert (filename game) (filenames db)"
  by (auto simp: insert_game_row_def filenames_def Let_def split: option.splits if_splits)

lemma insert_game_row_fail:
  "insert_game_row db game mn = Inl e \<Longrightarrow>
     filename game \<in> filenames db \<or> difficulty game = None \<or> durationSeconds game = None"
  by (auto simp: insert_game_row_def filenames_def Let_def split: option.splits if_splits)

lemma insert_game_row_static:
  "difficulty game = None \<or> durationSeconds game = None \<Longrightarrow> \<exists>e. insert_game_row db game mn = Inl e"
  by (auto simp: insert_game_row_def split: option.splits)

lemma insertGame_filenames:
  assumes "insertGame game db = (r, db')"
  shows "filenames db \<subseteq> filenames db'
       \<and> (filename game \<in> filenames db' \<or> difficulty game = None \<or> durationSeconds game = None)"
proof -
  let ?mn = "case map_of MISSION_NAMES (missionId game) of None \<Rightarrow> missionId game | Some n \<Rightarrow> n"
  show ?thesis
  proof (cases "insert_game_row db game ?mn")
    case (Inl e)
    with assms have "db' = db" by (simp add: insertGame_def)
    with insert_game_row_fail [OF Inl] show ?thesis by auto
  next
    case (Inr p)
    obtain gid db1 where p: "p = (gid, db1)" by (cases p)
    from Inr p assms have "tbl_games db' = tbl_games db1"
      by (auto simp: insertGame_def Let_def games_players_fold games_game_players_fold
          games_insertScoreBatches split: sum.splits dest!: games_properties)
    then have "filenames db' = set (map g_filename (tbl_games db1))" by (simp add: filenames_def)
    with insert_game_row_ok [OF Inr [unfolded p]] show ?thesis by auto
  qed
qed

lemma insertGame_static:
  assumes "difficulty game = None \<or> durationSeconds game = None"
  shows "\<exists>e. insertGame game db = (Some e, db)"
proof -
  from insert_game_row_static [OF assms] obtain e
    where "insert_game_row db game
        (case map_of MISSION_NAMES (missionId game) of None \<Rightarrow> missionId game | Some n \<Rightarrow> n) = Inl e"
    by blast
  then show ?thesis by (simp add: insertGame_def)
qed

lemma ingestFile_filenames:
  assumes "ingestFile file (a, b, db) = (a', b', db')"
  shows "filenames db \<subseteq> filenames db' \<and> (fst file \<in> filenames db' \<or> staticFail file)"
proof (cases "parseLuaContent (fst file) (snd file)")
  case None
  with assms show ?thesis by (auto simp: ingestFile_def staticFail_def)
next
  case (Some game)
  obtain r d where i: "insertGame game db = (r, d)" by (cases "insertGame game db")
  with Some assms have "db' = d" by (auto simp: ingestFile_def tryInsert_def split: option.splits)
  with insertGame_filenames [OF i] filename_parseLuaContent [OF Some] Some show ?thesis
    by (auto simp: staticFail_def)
qed

lemma ingestFile_static:
  assumes "staticFail file"
  shows "ingestFile file (a, b, db) = (a, b + 1, db)"
proof (cases "parseLuaContent (fst file) (snd file)")
  case None
  then show ?thesis by (simp add: ingestFile_def)
next
  case (Some game)
  with assms have "difficulty game = None \<or> durationSeconds game = None"
    by (simp add: staticFail_def)
  from insertGame_static [OF this, of db] obtain e where "insertGame game db = (Some e, db)" by blast
  with Some show ?thesis by (simp add: ingestFile_def tryInsert_def)
qed

lemma ingestLoop_turn:
  "\<exists>s2. ingestLoop i (f # files) (a, b, s)
          = ingestLoop (i + 1) files
              (fst (ingestFile f (a, b, st_db s)), fst (snd (ingestFile f (a, b, st_db s))), s2)
        \<and> st_db s2 = snd (snd (ingestFile f (a, b, st_db s)))
        \<and> (st_saved s2 = st_saved s \<or> st_saved s2 = Some (st_db s2))"
proof (cases "parseLuaContent (fst f) (snd f)")
  case None
  then show ?thesis by (intro exI [of _ s]) (simp add: ingestFile_def)
next
  case (Some game)
  obtain a1 b1 d1 where t: "tryInsert game (a, b, st_db s) = (a1, b1, d1)"
    by (cases "tryInsert game (a, b, st_db s)")
  let ?s1 = "s\<lparr>st_db := d1\<rparr>"
  let ?s2 = "if (i + 1) mod INGEST_BATCH_SIZE = 0 then saveDatabase ?s1 else ?s1"
  from Some t show ?thesis
    by (intro exI [of _ ?s2]) (simp add: ingestFile_def Let_def saveDatabase_def)
qed

lemma ingestLoop_filenames:
  assumes "ingestLoop i files (a, b, s) = (a', b', s')"
  shows "filenames (st_db s) \<subseteq> filenames (st_db s')
       \<and> (\<forall>f\<in>set files. fst f \<in> filenames (st_db s') \<or> staticFail f)"
  using assms
proof (induction files arbitrary: i a b s)
  case Nil
  then show ?case by simp
next
  case (Cons f files)
  obtain a1 b1 d1 where st: "ingestFile f (a, b, st_db s) = (a1, b1, d1)"
    by (cases "ingestFile f (a, b, st_db s)")
  from ingestLoop_turn [of i f files a b s] st obtain s2
    where s2: "ingestLoop i (f # files) (a, b, s) = ingestLoop (i + 1) files (a1, b1, s2)"
      "st_db s2 = d1"
    by auto
  from Cons.prems s2(1) have "ingestLoop (i + 1) files (a1, b1, s2) = (a', b', s')"
    by simp
  from Cons.IH [OF this] s2(2)
  have ih: "filenames d1 \<subseteq> filenames (st_db s')"
    "\<forall>f\<in>set files. fst f \<in> filenames (st_db s') \<or> staticFail f"
    by simp_all
  from ingestFile_filenames [OF st] ih show ?case by auto
qed

lemma ingestLoop_static:
  assumes "\<forall>f\<in>set files. staticFail f" and "st_saved s = Some (st_db s)"
  shows "ingestLoop i files (a, b, s) = (a, b + length files, s)"
  using assms
proof (induction files arbitrary: i b)
  case Nil
  then show ?case by simp
next
  case (Cons f files)
  from Cons.prems(1) have "staticFail f" by simp
  from ingestFile_static [OF this] have st: "ingestFile f (a, b, st_db s) = (a, b + 1, st_db s)" .
  from ingestLoop_turn [of i f files a b s] st obtain s2
    where s2: "ingestLoop i (f # files) (a, b, s) = ingestLoop (i + 1) files (a, b + 1, s2)"
      "st_db s2 = st_db s" "st_saved s2 = st_saved s \<or> st_saved s2 = Some (st_db s2)"
    by auto
  from s2(2,3) Cons.prems(2) have "s2 = s" by auto
  from Cons.IH [of "i + 1" "b + 1"] Cons.prems
  have "ingestLoop (i + 1) files (a, b + 1, s) = (a, b + 1 + length files, s)" by simp
  with s2(1) \<open>s2 = s\<close> show ?case by simp
qed

lemma games_backfill: "tbl_games (backfillUnknownPlayerNames db) = tbl_games db"
  by (simp add: backfillUnknownPlayerNames_def)

text \<open>
  C2. Running \<^verbatim>\<open>ingestFiles\<close> twice in sequence over the same file source: the second
  run leaves the store as the first run left it (tables and saved image), so it inserts no
  row, and it reports \<^verbatim>\<open>ingested\<close> = 0, so every file counts as ingested once at most
  over the two runs; its errors are the files whose names the games table does not hold,
  the only ones it processes; both runs report the same total. A file recorded in the games
  table is filtered out; a file that is processed again is one that fails whatever the
  store holds. This holds for every source, every store and every collation.
\<close>

theorem reingest_is_idempotent:
  "snd (ingestFiles cmp source (snd (ingestFiles cmp source s))) = snd (ingestFiles cmp source s)
   \<and> ingested (fst (ingestFiles cmp source (snd (ingestFiles cmp source s)))) = 0
   \<and> errors (fst (ingestFiles cmp source (snd (ingestFiles cmp source s))))
       = length (filter (\<lambda>f. fst f \<notin> filenames (st_db (snd (ingestFiles cmp source s))))
                   (collectLuaFiles cmp source))
   \<and> total (fst (ingestFiles cmp source (snd (ingestFiles cmp source s))))
       = total (fst (ingestFiles cmp source s))"
proof -
  let ?files = "collectLuaFiles cmp source"
  let ?new1 = "filter (\<lambda>f. fst f \<notin> filenames (st_db s)) ?files"
  obtain rep1 s1 where r1: "ingestFiles cmp source s = (rep1, s1)"
    by (cases "ingestFiles cmp source s")
  let ?new2 = "filter (\<lambda>f. fst f \<notin> filenames (st_db s1)) ?files"
  have t1: "total rep1 = length ?files"
    using r1 by (auto simp: ingestFiles_def Let_def split: if_splits prod.splits)
  have key: "(\<forall>f\<in>set ?new2. staticFail f) \<and> (?new2 \<noteq> [] \<longrightarrow> st_saved s1 = Some (st_db s1))"
  proof (cases "?new1 = []")
    case True
    with r1 have "s1 = s" by (simp add: ingestFiles_def Let_def filenames_def)
    with True show ?thesis by simp
  next
    case False
    obtain a b s' where l: "ingestLoop 0 ?new1 (0, 0, s) = (a, b, s')"
      by (cases "ingestLoop 0 ?new1 (0, 0, s)")
    from r1 False l have s1: "s1 = saveDatabase (if 0 < a then s'\<lparr>st_db := backfillUnknownPlayerNames (st_db s')\<rparr> else s')"
      by (simp add: ingestFiles_def Let_def filenames_def)
    then have f1: "filenames (st_db s1) = filenames (st_db s')"
      by (simp add: saveDatabase_def filenames_def games_backfill)
    have sv: "st_saved s1 = Some (st_db s1)"
      using s1 by (simp add: saveDatabase_def)
    from ingestLoop_filenames [OF l]
    have mono: "filenames (st_db s) \<subseteq> filenames (st_db s')"
      and cov: "\<forall>f\<in>set ?new1. fst f \<in> filenames (st_db s') \<or> staticFail f"
      by simp_all
    have "staticFail f" if "f \<in> set ?new2" for f
    proof -
      from that have m: "f \<in> set ?files" and n: "fst f \<notin> filenames (st_db s')"
        by (simp_all add: f1)
      with mono have "f \<in> set ?new1" by auto
      with cov n show ?thesis by blast
    qed
    with sv show ?thesis by blast
  qed
  have run2: "ingestFiles cmp source s1 = (\<lparr>ingested = 0, errors = length ?new2, total = length ?files\<rparr>, s1)"
  proof (cases "?new2 = []")
    case True
    then show ?thesis by (simp add: ingestFiles_def Let_def filenames_def)
  next
    case False
    with key have sf: "\<forall>f\<in>set ?new2. staticFail f" and sv: "st_saved s1 = Some (st_db s1)"
      by simp_all
    from ingestLoop_static [OF sf sv, of 0 0 0]
    have "ingestLoop 0 ?new2 (0, 0, s1) = (0, length ?new2, s1)" by simp
    with False sv show ?thesis
      by (simp add: ingestFiles_def Let_def filenames_def saveDatabase_def)
  qed
  from r1 run2 t1 show ?thesis by simp
qed

theorem reingest_is_idempotent_witness:
  "ingested (fst (ingestFiles byteCompare
      [(''20.lua'', ''#row;dmg;1;1\<newline>Bot;5''), (''notes.lua'', ''x''), (''10.lua'', ''#mission;m;x'')]
      emptyStore)) = 1
   \<and> ingested (fst (ingestFiles byteCompare
      [(''20.lua'', ''#row;dmg;1;1\<newline>Bot;5''), (''notes.lua'', ''x''), (''10.lua'', ''#mission;m;x'')]
      (snd (ingestFiles byteCompare
      [(''20.lua'', ''#row;dmg;1;1\<newline>Bot;5''), (''notes.lua'', ''x''), (''10.lua'', ''#mission;m;x'')]
      emptyStore)))) = 0
   \<and> snd (ingestFiles byteCompare
      [(''20.lua'', ''#row;dmg;1;1\<newline>Bot;5''), (''notes.lua'', ''x''), (''10.lua'', ''#mission;m;x'')]
      (snd (ingestFiles byteCompare
      [(''20.lua'', ''#row;dmg;1;1\<newline>Bot;5''), (''notes.lua'', ''x''), (''10.lua'', ''#mission;m;x'')]
      emptyStore)))
     = snd (ingestFiles byteCompare
      [(''20.lua'', ''#row;dmg;1;1\<newline>Bot;5''), (''notes.lua'', ''x''), (''10.lua'', ''#mission;m;x'')]
      emptyStore)"
proof -
  let ?src = "[(''20.lua'', ''#row;dmg;1;1\<newline>Bot;5''), (''notes.lua'', ''x''), (''10.lua'', ''#mission;m;x'')]"
  have "ingested (fst (ingestFiles byteCompare ?src emptyStore)) = 1"
    by code_simp
  with reingest_is_idempotent [of byteCompare ?src emptyStore] show ?thesis by simp
qed

text \<open>
  A file whose name is in the games table fails at the first statement of
  \<^verbatim>\<open>insertGame\<close>, which has written nothing yet: the store is unchanged.
\<close>

lemma insertGame_duplicate_filename:
  assumes "filename game \<in> filenames db"
  shows "fst (insertGame game db) \<noteq> None \<and> snd (insertGame game db) = db"
proof -
  have "\<exists>e. insert_game_row db game mn = Inl e" for mn
    using assms by (auto simp: insert_game_row_def filenames_def split: option.splits)
  then obtain e where "insert_game_row db game
      (case map_of MISSION_NAMES (missionId game) of None \<Rightarrow> missionId game | Some n \<Rightarrow> n) = Inl e"
    by blast
  then show ?thesis by (simp add: insertGame_def)
qed

text \<open>
  C1. The claim: when \<^verbatim>\<open>insertGame\<close> fails on a file, the writes made for that file
  are rolled back, the error is counted and ingestion goes on, so that no row of the failed
  file is in the store. \<^verbatim>\<open>ingestFiles\<close> counts the error and goes on, but rolls nothing
  back. The file \<^verbatim>\<open>1.lua\<close> below has a \<^verbatim>\<open>#group\<close> line without fields and a row:
  the draft's group id is \<^verbatim>\<open>undefined\<close>, \<^verbatim>\<open>insertGame\<close> inserts the games row and
  fails at the properties statement, and after the run, which reports one error and no
  ingested file, the games table holds the row of \<^verbatim>\<open>1.lua\<close>.
\<close>

theorem failed_insert_keeps_game_row:
  "ingested (fst (ingestFiles byteCompare [(''1.lua'', ''#group\<newline>#row;a'')] emptyStore)) = 0
   \<and> errors (fst (ingestFiles byteCompare [(''1.lua'', ''#group\<newline>#row;a'')] emptyStore)) = 1
   \<and> map g_filename (tbl_games (st_db (snd (ingestFiles byteCompare
         [(''1.lua'', ''#group\<newline>#row;a'')] emptyStore)))) = [''1.lua'']"
  by code_simp

subsection \<open>The ids of the games table\<close>

text \<open>
  A new game gets an id above every id of the table, so ingestion keeps the ids of the games
  table distinct: the hypothesis on the store in the theorem on the last \<open>n\<close> games holds
  for every store that ingestion builds from an empty one.
\<close>

lemma foldl_max_ge: "(a::nat) \<le> foldl max a xs \<and> (\<forall>x\<in>set xs. x \<le> foldl max a xs)"
proof (induction xs arbitrary: a)
  case Nil
  show ?case by simp
next
  case (Cons x xs)
  from Cons [of "max a x"] show ?case by auto
qed

lemma next_game_id_fresh: "g \<in> set (tbl_games db) \<Longrightarrow> g_id g < next_game_id db"
  using foldl_max_ge [of "seq_games db" "map g_id (tbl_games db)"]
  by (auto simp: next_game_id_def less_Suc_eq_le)

lemma insertGame_ids_distinct:
  assumes "distinct (map g_id (tbl_games db))"
  shows "distinct (map g_id (tbl_games (snd (insertGame game db))))"
proof -
  let ?mn = "case map_of MISSION_NAMES (missionId game) of None \<Rightarrow> missionId game | Some n \<Rightarrow> n"
  show ?thesis
  proof (cases "insert_game_row db game ?mn")
    case (Inl e)
    with assms show ?thesis by (simp add: insertGame_def)
  next
    case (Inr p)
    obtain gid db1 where p: "p = (gid, db1)" by (cases p)
    from Inr p have t: "tbl_games (snd (insertGame game db)) = tbl_games db1"
      by (auto simp: insertGame_def Let_def games_players_fold games_game_players_fold
          games_insertScoreBatches split: sum.splits dest!: games_properties)
    from Inr p obtain row where r: "tbl_games db1 = tbl_games db @ [row]" "g_id row = next_game_id db"
      by (auto simp: insert_game_row_def Let_def split: option.splits if_splits)
    have "g_id row \<notin> set (map g_id (tbl_games db))"
    proof
      assume "g_id row \<in> set (map g_id (tbl_games db))"
      then obtain x where x: "x \<in> set (tbl_games db)" "g_id x = g_id row" by auto
      from next_game_id_fresh [OF x(1)] x(2) r(2) show False by simp
    qed
    with assms r(1) t show ?thesis by simp
  qed
qed

lemma ingestFile_ids_distinct:
  assumes "distinct (map g_id (tbl_games db))"
  shows "distinct (map g_id (tbl_games (snd (snd (ingestFile file (a, b, db))))))"
proof (cases "parseLuaContent (fst file) (snd file)")
  case None
  with assms show ?thesis by (simp add: ingestFile_def)
next
  case (Some game)
  obtain r d where i: "insertGame game db = (r, d)" by (cases "insertGame game db")
  from insertGame_ids_distinct [OF assms, of game] i have "distinct (map g_id (tbl_games d))" by simp
  with Some i show ?thesis by (cases r) (simp_all add: ingestFile_def tryInsert_def)
qed

lemma ingestLoop_ids_distinct:
  assumes "distinct (map g_id (tbl_games (st_db s)))"
  shows "distinct (map g_id (tbl_games (st_db (snd (snd (ingestLoop i files (a, b, s)))))))"
  using assms
proof (induction files arbitrary: i a b s)
  case Nil
  then show ?case by simp
next
  case (Cons f files)
  obtain a1 b1 d1 where st: "ingestFile f (a, b, st_db s) = (a1, b1, d1)"
    by (cases "ingestFile f (a, b, st_db s)")
  from ingestFile_ids_distinct [OF Cons.prems, of f a b] st
  have d: "distinct (map g_id (tbl_games d1))" by simp
  from ingestLoop_turn [of i f files a b s] st obtain s2
    where s2: "ingestLoop i (f # files) (a, b, s) = ingestLoop (i + 1) files (a1, b1, s2)"
      "st_db s2 = d1"
    by auto
  from d s2(2) have "distinct (map g_id (tbl_games (st_db s2)))" by simp
  from Cons.IH [OF this, of "i + 1" a1 b1] s2(1) show ?case by simp
qed

lemma ingestFiles_ids_distinct:
  assumes "distinct (map g_id (tbl_games (st_db s)))"
  shows "distinct (map g_id (tbl_games (st_db (snd (ingestFiles cmp source s)))))"
proof -
  let ?new = "filter (\<lambda>f. fst f \<notin> set (map g_filename (tbl_games (st_db s)))) (collectLuaFiles cmp source)"
  obtain a b s' where l: "ingestLoop 0 ?new (0, 0, s) = (a, b, s')"
    by (cases "ingestLoop 0 ?new (0, 0, s)")
  from ingestLoop_ids_distinct [OF assms, of 0 ?new 0 0] l
  have "distinct (map g_id (tbl_games (st_db s')))" by simp
  with assms l show ?thesis
    by (simp add: ingestFiles_def Let_def saveDatabase_def games_backfill)
qed

end
